theory Spec2Isabelle
  imports Complex_Main
begin

section \<open>Cache telemetry (vllm/v1/metrics/loggers.py, class CacheTelemetry)\<close>

text \<open>
  The telemetry object is a record of its attributes. Python integers are \<open>int\<close>,
  the sets of request ids are sets of strings, and every time series is a list of
  (timestamp, count) pairs. The wall clock read by \<open>time.time()\<close> is the field
  \<open>clock\<close>, which the environment may advance between calls; the clock reads inside
  one call all return that value.
\<close>

record CacheTelemetry =
  output_dir :: string
  reset_cache_telemetry_on_new_file :: bool
  clock :: real
  init_time :: real
  total_blocks :: int
  total_hits :: int
  total_misses :: int
  total_evictions :: int
  first_block :: bool
  total_blocks_ts :: "(real \<times> int) list"
  total_hits_ts :: "(real \<times> int) list"
  total_misses_ts :: "(real \<times> int) list"
  total_evictions_ts :: "(real \<times> int) list"
  unique_requests :: int
  requests_with_hits :: "string set"
  requests_with_misses :: "string set"
  requests_with_evictions :: "string set"
  tracked_requests :: "string set"
  unique_requests_ts :: "(real \<times> int) list"
  requests_with_hits_ts :: "(real \<times> int) list"
  requests_with_misses_ts :: "(real \<times> int) list"
  requests_with_evictions_ts :: "(real \<times> int) list"

text \<open>\<open>CacheTelemetry.reset\<close>: every counter, set and series is cleared, \<open>first_block\<close>
  is set, and \<open>init_time\<close> is read from the clock.\<close>

definition reset :: "CacheTelemetry \<Rightarrow> CacheTelemetry" where
  "reset t = t\<lparr>
     total_blocks := 0, total_hits := 0, total_misses := 0, total_evictions := 0,
     first_block := True,
     total_blocks_ts := [], total_hits_ts := [], total_misses_ts := [],
     total_evictions_ts := [],
     unique_requests := 0,
     requests_with_hits := {}, requests_with_misses := {}, requests_with_evictions := {},
     tracked_requests := {},
     unique_requests_ts := [], requests_with_hits_ts := [], requests_with_misses_ts := [],
     requests_with_evictions_ts := [],
     init_time := clock t\<rparr>"

text \<open>\<open>CacheTelemetry.__init__\<close>: stores its two arguments, reads the clock and resets.\<close>

definition CacheTelemetry_init :: "string \<Rightarrow> bool \<Rightarrow> real \<Rightarrow> CacheTelemetry" where
  "CacheTelemetry_init dir on_new_file now =
     reset \<lparr>output_dir = dir, reset_cache_telemetry_on_new_file = on_new_file,
       clock = now, init_time = now,
       total_blocks = 0, total_hits = 0, total_misses = 0, total_evictions = 0,
       first_block = True,
       total_blocks_ts = [], total_hits_ts = [], total_misses_ts = [],
       total_evictions_ts = [],
       unique_requests = 0,
       requests_with_hits = {}, requests_with_misses = {}, requests_with_evictions = {},
       tracked_requests = {},
       unique_requests_ts = [], requests_with_hits_ts = [], requests_with_misses_ts = [],
       requests_with_evictions_ts = []\<rparr>"

text \<open>\<open>CacheTelemetry.record_hit\<close>. The first call after a reset only clears
  \<open>first_block\<close> and returns.\<close>

definition record_hit :: "CacheTelemetry \<Rightarrow> int \<Rightarrow> string option \<Rightarrow> CacheTelemetry" where
  "record_hit t num_blocks request_id =
     (if first_block t then t\<lparr>first_block := False\<rparr>
      else
        let t1 =
          (case request_id of
             None \<Rightarrow> t
           | Some rid \<Rightarrow>
               let ta =
                 (if rid \<notin> tracked_requests t
                  then t\<lparr>unique_requests := unique_requests t + 1,
                         tracked_requests := insert rid (tracked_requests t),
                         unique_requests_ts :=
                           unique_requests_ts t @ [(clock t - init_time t, 1)]\<rparr>
                  else t)
               in (if rid \<notin> requests_with_hits ta
                   then ta\<lparr>requests_with_hits := insert rid (requests_with_hits ta),
                           requests_with_hits_ts :=
                             requests_with_hits_ts ta @ [(clock ta - init_time ta, 1)]\<rparr>
                   else ta))
        in (if num_blocks > 0
            then t1\<lparr>total_blocks := total_blocks t1 + num_blocks,
                    total_hits := total_hits t1 + num_blocks,
                    total_blocks_ts :=
                      total_blocks_ts t1 @ [(clock t1 - init_time t1, num_blocks)],
                    total_hits_ts :=
                      total_hits_ts t1 @ [(clock t1 - init_time t1, num_blocks)]\<rparr>
            else t1))"

text \<open>\<open>CacheTelemetry.record_miss\<close>.\<close>

definition record_miss :: "CacheTelemetry \<Rightarrow> int \<Rightarrow> string option \<Rightarrow> CacheTelemetry" where
  "record_miss t num_blocks request_id =
     (let t1 =
        (case request_id of
           None \<Rightarrow> t
         | Some rid \<Rightarrow>
             let ta =
               (if rid \<notin> tracked_requests t
                then t\<lparr>unique_requests := unique_requests t + 1,
                       tracked_requests := insert rid (tracked_requests t),
                       unique_requests_ts :=
                         unique_requests_ts t @ [(clock t - init_time t, 1)]\<rparr>
                else t)
             in (if rid \<notin> requests_with_misses ta
                 then ta\<lparr>requests_with_misses := insert rid (requests_with_misses ta),
                         requests_with_misses_ts :=
                           requests_with_misses_ts ta @ [(clock ta - init_time ta, 1)]\<rparr>
                 else ta))
      in (if num_blocks > 0
          then t1\<lparr>total_blocks := total_blocks t1 + num_blocks,
                  total_misses := total_misses t1 + num_blocks,
                  total_blocks_ts :=
                    total_blocks_ts t1 @ [(clock t1 - init_time t1, num_blocks)],
                  total_misses_ts :=
                    total_misses_ts t1 @ [(clock t1 - init_time t1, num_blocks)]\<rparr>
          else t1))"

text \<open>\<open>CacheTelemetry.record_eviction\<close>.\<close>

definition record_eviction :: "CacheTelemetry \<Rightarrow> int \<Rightarrow> string option \<Rightarrow> CacheTelemetry" where
  "record_eviction t num_blocks request_id =
     (let timestamp = clock t - init_time t;
          t1 = t\<lparr>total_evictions := total_evictions t + num_blocks,
                 total_evictions_ts := total_evictions_ts t @ [(timestamp, num_blocks)]\<rparr>
      in (case request_id of
            None \<Rightarrow> t1
          | Some rid \<Rightarrow>
              let ta =
                (if rid \<notin> tracked_requests t1
                 then t1\<lparr>unique_requests := unique_requests t1 + 1,
                         tracked_requests := insert rid (tracked_requests t1),
                         unique_requests_ts := unique_requests_ts t1 @ [(timestamp, 1)]\<rparr>
                 else t1);
                  tb =
                (if rid \<notin> requests_with_evictions ta
                 then ta\<lparr>requests_with_evictions := insert rid (requests_with_evictions ta),
                         requests_with_evictions_ts :=
                           requests_with_evictions_ts ta @ [(timestamp, 1)]\<rparr>
                 else ta)
              in tb\<lparr>requests_with_evictions_ts :=
                      requests_with_evictions_ts tb @ [(timestamp, num_blocks)]\<rparr>))"

text \<open>A sequence of \<open>record_hit\<close> calls, each a triple of the clock reading at the call,
  the block count and the request id.\<close>

fun record_hits :: "CacheTelemetry \<Rightarrow> (real \<times> int \<times> string option) list \<Rightarrow> CacheTelemetry" where
  "record_hits t [] = t"
| "record_hits t ((now, num_blocks, request_id) # calls) =
     record_hits (record_hit (t\<lparr>clock := now\<rparr>) num_blocks request_id) calls"


section \<open>Requests, block hashes and helpers the manager imports\<close>

text \<open>Every \<open>raise\<close>, failed \<open>assert\<close> and failing built-in operation of the modelled
  code is a value of this type.\<close>

datatype error = ValueError | AssertionError | IndexError | AttributeError | ZeroDivisionError

text \<open>A \<open>KVCacheBlock\<close> is owned by the pool and shared by reference between the block
  lists of the requests; a reference is the block's index in the pool, and the block's
  mutable attributes live in the pool (below).\<close>

type_synonym block = nat

text \<open>Modelled from the spec: \<open>BlockHashType\<close> (vllm/v1/core/kv_cache_utils.py is not among
  the source files). The spec's data model gives a block hash as the triple
  (hash value, parent hash or none, cache partition key).\<close>

record BlockHashType =
  hash_value :: nat
  parent_hash :: "nat option"
  partition_key :: "nat option"

text \<open>Modelled from the spec: \<open>Request\<close> (vllm/v1/request.py is not among the source files).
  The fields are the ones the manager reads: the request id, the token ids (whose number
  is \<open>request.num_tokens\<close>), \<open>num_computed_tokens\<close>, the pending speculative token ids,
  \<open>sampling_params.prompt_logprobs\<close> and the cache partition key.\<close>

record Request =
  request_id :: string
  all_token_ids :: "int list"
  num_computed_tokens :: int
  spec_token_ids :: "int list"
  prompt_logprobs :: "int option"
  cache_partition_key :: "nat option"

text \<open>The property \<open>request.num_tokens\<close>.\<close>

definition request_num_tokens :: "Request \<Rightarrow> int" where
  "request_num_tokens request = int (length (all_token_ids request))"

text \<open>Modelled from the spec: \<open>cdiv\<close> (vllm/utils is not among the source files), the
  ceiling of the quotient. Python raises \<open>ZeroDivisionError\<close> for a zero divisor; the
  callers below test for it before they call \<open>cdiv\<close>.\<close>

definition cdiv :: "int \<Rightarrow> int \<Rightarrow> int" where
  "cdiv a b = - (a div (- b))"

text \<open>The hash function \<open>caching_hash_fn\<close> maps the parent hash, the token ids of one block
  and the partition key to a hash value.\<close>

type_synonym hash_fn = "nat option \<Rightarrow> int list \<Rightarrow> nat option \<Rightarrow> nat"

text \<open>Modelled from the spec: the Block Hasher \<open>hash_request_tokens\<close>
  (vllm/v1/core/kv_cache_utils.py is not among the source files): one hash for every
  complete block of the token sequence, the trailing partial block excluded, each hash a
  function of the previous hash, the block's tokens and the partition key.\<close>

definition full_token_blocks :: "int \<Rightarrow> int list \<Rightarrow> int list list" where
  "full_token_blocks bsz toks =
     (if bsz \<le> 0 then []
      else map (\<lambda>i. take (nat bsz) (drop (i * nat bsz) toks))
             [0 ..< length toks div nat bsz])"

fun hash_token_blocks :: "hash_fn \<Rightarrow> nat option \<Rightarrow> nat option \<Rightarrow> int list list \<Rightarrow> BlockHashType list" where
  "hash_token_blocks f key parent [] = []"
| "hash_token_blocks f key parent (b # bs) =
     (let v = f parent b key
      in \<lparr>hash_value = v, parent_hash = parent, partition_key = key\<rparr>
           # hash_token_blocks f key (Some v) bs)"

definition hash_request_tokens :: "hash_fn \<Rightarrow> int \<Rightarrow> Request \<Rightarrow> BlockHashType list" where
  "hash_request_tokens f bsz request =
     hash_token_blocks f (cache_partition_key request) None
       (full_token_blocks bsz (all_token_ids request))"

section \<open>The block pool\<close>

text \<open>Modelled from the spec: \<open>BlockPool\<close> (vllm/v1/core/block_pool.py is not among the
  source files), after the contract of the spec's section 4.3. Per block the pool holds
  the reference count and the optional content hash; the evictable queue lists the blocks
  with reference count zero, oldest release first; the cache index maps a hash value to
  the resident block with that content.\<close>

record BlockPool =
  ref_cnt :: "block \<Rightarrow> int"
  content_hash :: "block \<Rightarrow> BlockHashType option"
  evictable_queue :: "block list"
  cache_index :: "nat \<rightharpoonup> block"

text \<open>A new pool: every block is unreferenced and without content, and the evictable
  queue holds all blocks in the order of their indices.\<close>

definition BlockPool_init :: "int \<Rightarrow> BlockPool" where
  "BlockPool_init num_blocks =
     \<lparr>ref_cnt = (\<lambda>_. 0), content_hash = (\<lambda>_. None),
      evictable_queue = [0 ..< nat num_blocks], cache_index = Map.empty\<rparr>"

definition get_num_free_blocks :: "BlockPool \<Rightarrow> int" where
  "get_num_free_blocks p = int (length (evictable_queue p))"

text \<open>\<open>touch\<close>: each block's reference count is incremented; a block that was unreferenced
  leaves the evictable queue.\<close>

definition touch_block :: "BlockPool \<Rightarrow> block \<Rightarrow> BlockPool" where
  "touch_block p b =
     p\<lparr>evictable_queue :=
         (if ref_cnt p b = 0 then remove1 b (evictable_queue p) else evictable_queue p),
       ref_cnt := (ref_cnt p)(b := ref_cnt p b + 1)\<rparr>"

definition touch :: "BlockPool \<Rightarrow> block list \<Rightarrow> BlockPool" where
  "touch p blocks = foldl touch_block p blocks"

text \<open>\<open>free_blocks\<close>: each block's reference count is decremented, in the order given; a
  block reaching zero is appended to the tail of the evictable queue.\<close>

definition free_block :: "BlockPool \<Rightarrow> block \<Rightarrow> BlockPool" where
  "free_block p b =
     (let c = ref_cnt p b - 1
      in p\<lparr>ref_cnt := (ref_cnt p)(b := c),
           evictable_queue :=
             (if c = 0 then evictable_queue p @ [b] else evictable_queue p)\<rparr>)"

definition free_blocks :: "BlockPool \<Rightarrow> block list \<Rightarrow> BlockPool" where
  "free_blocks p blocks = foldl free_block p blocks"

text \<open>\<open>get_new_blocks\<close>: fails when fewer than \<open>n\<close> blocks are obtainable. Otherwise the
  blocks without content come first, then the cached ones from the head of the queue; a
  cached block is evicted as it is handed out (its index entry is removed and its content
  hash cleared), and every block handed out has reference count 1.\<close>

definition hand_out :: "BlockPool \<Rightarrow> block \<Rightarrow> BlockPool" where
  "hand_out p b =
     p\<lparr>evictable_queue := remove1 b (evictable_queue p),
       cache_index :=
         (case content_hash p b of
            None \<Rightarrow> cache_index p
          | Some h \<Rightarrow> (cache_index p)(hash_value h := None)),
       content_hash := (content_hash p)(b := None),
       ref_cnt := (ref_cnt p)(b := 1)\<rparr>"

definition get_new_blocks :: "BlockPool \<Rightarrow> int \<Rightarrow> error + (block list \<times> BlockPool)" where
  "get_new_blocks p n =
     (if n > get_num_free_blocks p then Inl AssertionError
      else
        let q = evictable_queue p;
            candidates =
              filter (\<lambda>b. content_hash p b = None) q @ filter (\<lambda>b. content_hash p b \<noteq> None) q;
            new_blocks = take (nat n) candidates
        in Inr (new_blocks, foldl hand_out p new_blocks))"

text \<open>\<open>cache_full_blocks\<close>: every block of the list with an index from \<open>num_cached_blocks\<close>
  up to (excluding) \<open>num_full_blocks\<close> that has no content hash yet gets the hash of its
  position in the chain and enters the cache index, unless that hash is already
  resident. Positions beyond the stored chain take their hash from the chain of the
  request's tokens.\<close>

definition cache_block :: "BlockPool \<Rightarrow> block \<times> BlockHashType \<Rightarrow> BlockPool" where
  "cache_block p bh =
     (case bh of (b, h) \<Rightarrow>
        if content_hash p b \<noteq> None then p
        else if cache_index p (hash_value h) \<noteq> None then p
        else p\<lparr>content_hash := (content_hash p)(b := Some h),
               cache_index := (cache_index p)(hash_value h \<mapsto> b)\<rparr>)"

definition cache_full_blocks ::
    "BlockPool \<Rightarrow> Request \<Rightarrow> block list \<Rightarrow> BlockHashType list \<Rightarrow> int \<Rightarrow> int \<Rightarrow> int \<Rightarrow> hash_fn \<Rightarrow> BlockPool" where
  "cache_full_blocks p request blocks block_hashes num_cached_blocks num_full_blocks bsz f =
     (let chain = block_hashes @ drop (length block_hashes) (hash_request_tokens f bsz request);
          lo = nat num_cached_blocks;
          hi = nat num_full_blocks
      in foldl cache_block p (drop lo (take hi (zip blocks chain))))"

section \<open>The cache topology policy\<close>

text \<open>Modelled from the spec: the specialized manager (vllm/v1/core/specialized_manager.py
  is not among the source files) is an object with two methods. \<open>find_longest_cache_hit\<close>
  reads the pool and returns the resident blocks matching a prefix of the chain;
  \<open>remove_skipped_blocks\<close> takes the request's blocks out of its list that the attention
  pattern no longer needs, and returns the list that remains and the blocks removed.\<close>

record SpecializedManager =
  find_longest_cache_hit :: "BlockPool \<Rightarrow> BlockHashType list \<Rightarrow> block list"
  remove_skipped_blocks :: "block list \<Rightarrow> int \<Rightarrow> block list \<times> block list"

text \<open>Modelled from the spec: the full attention policy scans the chain from its start and
  stops at the first hash that is not in the cache index; it never skips a block.\<close>

fun full_attention_hit :: "BlockPool \<Rightarrow> BlockHashType list \<Rightarrow> block list" where
  "full_attention_hit p [] = []"
| "full_attention_hit p (h # hs) =
     (case cache_index p (hash_value h) of
        None \<Rightarrow> []
      | Some b \<Rightarrow> b # full_attention_hit p hs)"

definition FullAttentionManager :: SpecializedManager where
  "FullAttentionManager =
     \<lparr>find_longest_cache_hit = full_attention_hit,
      remove_skipped_blocks = (\<lambda>blocks n. (blocks, []))\<rparr>"


section \<open>The KV cache manager (vllm/v1/core/kv_cache_manager.py)\<close>

text \<open>Modelled from the spec: \<open>PrefixCacheStats\<close> (vllm/v1/metrics/stats.py is not among
  the source files), with the counters the manager updates.\<close>

record PrefixCacheStats =
  stats_reset :: bool
  requests :: int
  queries :: int
  hits :: int
  request_hits :: int
  evictions :: int
  request_evictions :: int

definition PrefixCacheStats_init :: PrefixCacheStats where
  "PrefixCacheStats_init =
     \<lparr>stats_reset = False, requests = 0, queries = 0, hits = 0, request_hits = 0,
      evictions = 0, request_evictions = 0\<rparr>"

text \<open>The manager's attributes. The three per-request dictionaries are maps from the
  request id; a \<open>defaultdict(list)\<close> read of an absent key stores the empty list under
  it, which the operations below write out.\<close>

record KVCacheManager =
  block_size :: int
  num_gpu_blocks :: int
  max_model_len :: int
  max_num_blocks_per_req :: int
  enable_caching :: bool
  caching_hash_fn :: hash_fn
  log_stats :: bool
  num_preallocate_tokens :: int
  num_preallocate_blocks :: int
  block_pool :: BlockPool
  specialized_manager :: SpecializedManager
  cache_telemetry :: "CacheTelemetry option"
  req_to_blocks :: "string \<rightharpoonup> block list"
  req_to_block_hashes :: "string \<rightharpoonup> BlockHashType list"
  num_cached_block :: "string \<rightharpoonup> int"
  prefix_cache_stats :: PrefixCacheStats

text \<open>\<open>KVCacheManager.__init__\<close>. The two \<open>cdiv\<close> calls raise for a zero block size.\<close>

definition new_manager ::
    "int \<Rightarrow> int \<Rightarrow> int \<Rightarrow> bool \<Rightarrow> hash_fn \<Rightarrow> int \<Rightarrow> bool \<Rightarrow> CacheTelemetry option \<Rightarrow> SpecializedManager \<Rightarrow> KVCacheManager" where
  "new_manager bsz num_blocks max_len caching f prealloc_tokens stats telemetry policy =
     \<lparr>block_size = bsz, num_gpu_blocks = num_blocks, max_model_len = max_len,
      max_num_blocks_per_req = cdiv max_len bsz,
      enable_caching = caching, caching_hash_fn = f, log_stats = stats,
      num_preallocate_tokens = prealloc_tokens,
      num_preallocate_blocks = cdiv prealloc_tokens bsz,
      block_pool = BlockPool_init num_blocks,
      specialized_manager = policy,
      cache_telemetry = telemetry,
      req_to_blocks = Map.empty, req_to_block_hashes = Map.empty,
      num_cached_block = Map.empty,
      prefix_cache_stats = PrefixCacheStats_init\<rparr>"

definition KVCacheManager_init ::
    "int \<Rightarrow> int \<Rightarrow> int \<Rightarrow> bool \<Rightarrow> hash_fn \<Rightarrow> int \<Rightarrow> bool \<Rightarrow> CacheTelemetry option \<Rightarrow> SpecializedManager \<Rightarrow> error + KVCacheManager" where
  "KVCacheManager_init bsz num_blocks max_len caching f prealloc_tokens stats telemetry policy =
     (if bsz = 0 then Inl ZeroDivisionError
      else Inr (new_manager bsz num_blocks max_len caching f prealloc_tokens stats telemetry policy))"

text \<open>A dictionary read with the default \<open>[]\<close>.\<close>

definition lookup_list :: "(string \<rightharpoonup> 'a list) \<Rightarrow> string \<Rightarrow> 'a list" where
  "lookup_list d k = (case d k of None \<Rightarrow> [] | Some xs \<Rightarrow> xs)"

subsection \<open>get_computed_blocks\<close>

text \<open>Lines 151 to 174: the lookup of the (possibly shortened) chain, the counters, the
  telemetry calls, the restoring of the popped hash and the result. The chain passed to
  the policy is the list object stored under the request id, so the stored chain is the
  shortened one until the popped hash is appended again. \<open>self.cache_telemetry\<close> may be
  \<open>None\<close>, and a method call on it raises \<open>AttributeError\<close>.\<close>

definition match_block_hashes ::
    "KVCacheManager \<Rightarrow> Request \<Rightarrow> BlockHashType list \<Rightarrow> BlockHashType option \<Rightarrow> (error + block list \<times> int) \<times> KVCacheManager" where
  "match_block_hashes m request block_hashes last_block_hash =
     (let rid = request_id request;
          computed_blocks =
            find_longest_cache_hit (specialized_manager m) (block_pool m) block_hashes;
          st = prefix_cache_stats m;
          st1 = st\<lparr>queries := queries st + int (length block_hashes),
                   hits := hits st + int (length computed_blocks)\<rparr>;
          st2 = (if length computed_blocks > 0
                 then st1\<lparr>request_hits := request_hits st1 + 1\<rparr> else st1);
          m1 = m\<lparr>prefix_cache_stats := st2\<rparr>;
          logged =
            (if log_stats m1
             then (case cache_telemetry m1 of
                     None \<Rightarrow> None
                   | Some t \<Rightarrow>
                       Some (m1\<lparr>cache_telemetry :=
                         Some (record_miss
                                 (record_hit t (int (length computed_blocks)) (Some rid))
                                 (int (length block_hashes) - int (length computed_blocks))
                                 (Some rid))\<rparr>))
             else Some m1)
      in (case logged of
            None \<Rightarrow> (Inl AttributeError, m1)
          | Some m2 \<Rightarrow>
              (Inr (computed_blocks, int (length computed_blocks) * block_size m2),
               (case last_block_hash of
                  None \<Rightarrow> m2
                | Some h \<Rightarrow>
                    m2\<lparr>req_to_block_hashes :=
                         (req_to_block_hashes m2)(rid \<mapsto> block_hashes @ [h])\<rparr>))))"

text \<open>\<open>KVCacheManager.get_computed_blocks\<close>. The result is the raised error or the
  returned pair, together with the manager as the call leaves it. \<open>list.pop\<close> on an
  empty chain raises \<open>IndexError\<close>.\<close>

definition get_computed_blocks ::
    "KVCacheManager \<Rightarrow> Request \<Rightarrow> (error + block list \<times> int) \<times> KVCacheManager" where
  "get_computed_blocks m request =
     (if \<not> enable_caching m then (Inr ([], 0), m)
      else
        let rid = request_id request;
            stored = lookup_list (req_to_block_hashes m) rid;
            block_hashes =
              (if stored = []
               then hash_request_tokens (caching_hash_fn m) (block_size m) request
               else stored);
            st = prefix_cache_stats m;
            m1 = m\<lparr>req_to_block_hashes := (req_to_block_hashes m)(rid \<mapsto> block_hashes),
                   prefix_cache_stats := st\<lparr>requests := requests st + 1\<rparr>\<rparr>
        in if prompt_logprobs request \<noteq> None then (Inr ([], 0), m1)
           else if int (length block_hashes) * block_size m1 = request_num_tokens request
           then (if block_hashes = [] then (Inl IndexError, m1)
                 else match_block_hashes
                        (m1\<lparr>req_to_block_hashes :=
                              (req_to_block_hashes m1)(rid \<mapsto> butlast block_hashes)\<rparr>)
                        request (butlast block_hashes) (Some (last block_hashes)))
           else match_block_hashes m1 request block_hashes None)"

subsection \<open>allocate_slots\<close>

text \<open>Lines 256 to 283: the blocks pulled from the pool. The argument \<open>num_new_blocks\<close>
  is the number still needed after the new computed blocks were appended.\<close>

definition pull_new_blocks ::
    "KVCacheManager \<Rightarrow> Request \<Rightarrow> int \<Rightarrow> (error + block list) \<times> KVCacheManager" where
  "pull_new_blocks m request num_new_blocks =
     (if num_new_blocks \<le> 0 then (Inr [], m)
      else
        let rid = request_id request;
            req_blocks = lookup_list (req_to_blocks m) rid;
            n = min (num_new_blocks + num_preallocate_blocks m)
                  (min (get_num_free_blocks (block_pool m))
                       (max_num_blocks_per_req m - int (length req_blocks)))
        in if \<not> n > 0 then (Inl AssertionError, m)
           else
             let num_readily_free_blocks = get_num_free_blocks (block_pool m);
                 st = prefix_cache_stats m;
                 num_blocks_to_evict = n - num_readily_free_blocks;
                 m1 = (if n > num_readily_free_blocks
                       then m\<lparr>prefix_cache_stats :=
                               st\<lparr>evictions := evictions st + num_blocks_to_evict,
                                  request_evictions := request_evictions st + 1\<rparr>\<rparr>
                       else m);
                 logged =
                   (if n > num_readily_free_blocks \<and> log_stats m1
                    then (case cache_telemetry m1 of
                            None \<Rightarrow> None
                          | Some t \<Rightarrow>
                              Some (m1\<lparr>cache_telemetry :=
                                Some (record_eviction t num_blocks_to_evict (Some rid))\<rparr>))
                    else Some m1)
             in (case logged of
                   None \<Rightarrow> (Inl AttributeError, m1)
                 | Some m2 \<Rightarrow>
                     (case get_new_blocks (block_pool m2) n of
                        Inl e \<Rightarrow> (Inl e, m2)
                      | Inr (new_blocks, pool) \<Rightarrow>
                          (Inr new_blocks,
                           m2\<lparr>block_pool := pool,
                              req_to_blocks :=
                                (req_to_blocks m2)(rid \<mapsto> req_blocks @ new_blocks)\<rparr>))))"

text \<open>Lines 285 to 310: the registration of the full blocks in the cache index. The read
  \<open>self.req_to_block_hashes[request.request_id]\<close> stores the empty chain for a request
  that has none.\<close>

definition cache_new_full_blocks ::
    "KVCacheManager \<Rightarrow> Request \<Rightarrow> int \<Rightarrow> int \<Rightarrow> block list \<Rightarrow> KVCacheManager" where
  "cache_new_full_blocks m request computed_tokens num_tokens new_computed_blocks =
     (if \<not> enable_caching m then m
      else
        let rid = request_id request;
            num_cached_blocks =
              (case num_cached_block m rid of
                 None \<Rightarrow> int (length new_computed_blocks)
               | Some c \<Rightarrow> c);
            num_full_blocks_after_append =
              (computed_tokens + num_tokens - int (length (spec_token_ids request)))
                div block_size m;
            block_hashes = lookup_list (req_to_block_hashes m) rid
        in m\<lparr>block_pool :=
               cache_full_blocks (block_pool m) request (lookup_list (req_to_blocks m) rid)
                 block_hashes num_cached_blocks num_full_blocks_after_append
                 (block_size m) (caching_hash_fn m),
             req_to_block_hashes := (req_to_block_hashes m)(rid \<mapsto> block_hashes),
             num_cached_block := (num_cached_block m)(rid \<mapsto> num_full_blocks_after_append)\<rparr>)"

text \<open>\<open>KVCacheManager.allocate_slots\<close>. The result is the raised error, \<open>None\<close> or the list
  of new blocks, together with the manager as the call leaves it.\<close>

definition allocate_slots ::
    "KVCacheManager \<Rightarrow> Request \<Rightarrow> int \<Rightarrow> block list option \<Rightarrow> (error + block list option) \<times> KVCacheManager" where
  "allocate_slots m request num_tokens new_computed_blocks_arg =
     (if num_tokens = 0 then (Inl ValueError, m)
      else
        let rid = request_id request;
            new_computed_blocks =
              (case new_computed_blocks_arg of None \<Rightarrow> [] | Some bs \<Rightarrow> bs);
            skipped = remove_skipped_blocks (specialized_manager m)
                        (lookup_list (req_to_blocks m) rid) (num_computed_tokens request);
            req_blocks = fst skipped;
            removed_blocks = snd skipped;
            m1 = m\<lparr>req_to_blocks := (req_to_blocks m)(rid \<mapsto> req_blocks),
                   block_pool := free_blocks (block_pool m) removed_blocks\<rparr>
        in if block_size m1 = 0 then (Inl ZeroDivisionError, m1)
           else
             let computed_tokens =
                   num_computed_tokens request
                     + int (length new_computed_blocks) * block_size m1;
                 num_required_blocks = cdiv (computed_tokens + num_tokens) (block_size m1);
                 num_new_blocks =
                   num_required_blocks - int (length req_blocks)
                     - int (length new_computed_blocks);
                 num_evictable_computed_blocks =
                   int (length (filter (\<lambda>blk. ref_cnt (block_pool m1) blk = 0)
                                  new_computed_blocks))
             in if num_new_blocks
                     > get_num_free_blocks (block_pool m1) - num_evictable_computed_blocks
                then (Inr None, m1)
                else if \<not> enable_caching m1 \<and> new_computed_blocks \<noteq> []
                then (Inl AssertionError, m1)
                else
                  let m2 = m1\<lparr>block_pool :=
                                (if enable_caching m1
                                 then touch (block_pool m1) new_computed_blocks
                                 else block_pool m1),
                              req_to_blocks :=
                                (req_to_blocks m1)(rid \<mapsto> req_blocks @ new_computed_blocks)\<rparr>
                  in (case pull_new_blocks m2 request num_new_blocks of
                        (Inl e, m3) \<Rightarrow> (Inl e, m3)
                      | (Inr new_blocks, m3) \<Rightarrow>
                          (Inr (Some new_blocks),
                           cache_new_full_blocks m3 request computed_tokens num_tokens
                             new_computed_blocks)))"

subsection \<open>free and free_block_hashes\<close>

text \<open>\<open>KVCacheManager.free\<close>: both \<open>pop\<close> calls have a default, so an unknown request id
  raises nothing.\<close>

definition free :: "KVCacheManager \<Rightarrow> Request \<Rightarrow> KVCacheManager" where
  "free m request =
     (let rid = request_id request;
          blocks = lookup_list (req_to_blocks m) rid;
          ordered_blocks = (if enable_caching m then rev blocks else blocks)
      in m\<lparr>req_to_blocks := (req_to_blocks m)(rid := None),
           block_pool := free_blocks (block_pool m) ordered_blocks,
           num_cached_block := (num_cached_block m)(rid := None)\<rparr>)"

text \<open>\<open>KVCacheManager.free_block_hashes\<close>.\<close>

definition free_block_hashes :: "KVCacheManager \<Rightarrow> Request \<Rightarrow> KVCacheManager" where
  "free_block_hashes m request =
     m\<lparr>req_to_block_hashes := (req_to_block_hashes m)(request_id request := None)\<rparr>"


section \<open>The stages of allocate_slots\<close>

text \<open>Names for the intermediate values of \<open>allocate_slots\<close>, used to state its
  properties: the list of new computed blocks (line 209), the manager after the skipped
  blocks were released (lines 211 to 221), the number of computed tokens (lines 225 and
  226), the number of new blocks needed (lines 227 to 230), the manager after the new
  computed blocks were touched and appended (lines 243 to 252), and the number of blocks
  asked of the pool (lines 262 to 269).\<close>

definition new_computed_list :: "block list option \<Rightarrow> block list" where
  "new_computed_list arg = (case arg of None \<Rightarrow> [] | Some bs \<Rightarrow> bs)"

definition release_skipped :: "KVCacheManager \<Rightarrow> Request \<Rightarrow> KVCacheManager" where
  "release_skipped m request =
     (let skipped = remove_skipped_blocks (specialized_manager m)
                      (lookup_list (req_to_blocks m) (request_id request))
                      (num_computed_tokens request)
      in m\<lparr>req_to_blocks := (req_to_blocks m)(request_id request \<mapsto> fst skipped),
           block_pool := free_blocks (block_pool m) (snd skipped)\<rparr>)"

definition total_computed_tokens :: "KVCacheManager \<Rightarrow> Request \<Rightarrow> block list \<Rightarrow> int" where
  "total_computed_tokens m request new_computed_blocks =
     num_computed_tokens request + int (length new_computed_blocks) * block_size m"

definition blocks_needed :: "KVCacheManager \<Rightarrow> Request \<Rightarrow> int \<Rightarrow> block list \<Rightarrow> int" where
  "blocks_needed m request n new_computed_blocks =
     cdiv (total_computed_tokens m request new_computed_blocks + n) (block_size m)
       - int (length (lookup_list (req_to_blocks (release_skipped m request))
                        (request_id request)))
       - int (length new_computed_blocks)"

definition pin_computed :: "KVCacheManager \<Rightarrow> Request \<Rightarrow> block list \<Rightarrow> KVCacheManager" where
  "pin_computed m request new_computed_blocks =
     (let m1 = release_skipped m request
      in m1\<lparr>block_pool :=
              (if enable_caching m1 then touch (block_pool m1) new_computed_blocks
               else block_pool m1),
            req_to_blocks :=
              (req_to_blocks m1)(request_id request \<mapsto>
                 lookup_list (req_to_blocks m1) (request_id request) @ new_computed_blocks)\<rparr>)"

definition num_pulled :: "KVCacheManager \<Rightarrow> Request \<Rightarrow> int \<Rightarrow> int" where
  "num_pulled m request num_new_blocks =
     min (num_new_blocks + num_preallocate_blocks m)
       (min (get_num_free_blocks (block_pool m))
            (max_num_blocks_per_req m
               - int (length (lookup_list (req_to_blocks m) (request_id request)))))"

text \<open>\<open>allocations m m'\<close>: the manager \<open>m'\<close> is reached from \<open>m\<close> by a sequence of
  \<open>allocate_slots\<close> calls that each return a list of blocks, where at each call the
  blocks the request holds after the release of the skipped ones, together with the new
  computed blocks, do not exceed \<open>max_num_blocks_per_req\<close>.\<close>

inductive allocations :: "KVCacheManager \<Rightarrow> KVCacheManager \<Rightarrow> bool" for m where
  start: "allocations m m"
| call: "allocations m m1 \<Longrightarrow>
         allocate_slots m1 r n arg = (Inr (Some new_blocks), m2) \<Longrightarrow>
         int (length (lookup_list (req_to_blocks (release_skipped m1 r)) (request_id r)))
           + int (length (new_computed_list arg)) \<le> max_num_blocks_per_req m1 \<Longrightarrow>
         allocations m m2"

section \<open>Example states\<close>

text \<open>The hash function of the examples adds the sum of the block's tokens to the parent
  hash.\<close>

definition ex_hash :: hash_fn where
  "ex_hash parent toks key =
     nat (sum_list toks) + (case parent of None \<Rightarrow> 0 | Some p \<Rightarrow> p)"

text \<open>A request of \<open>n\<close> tokens, all of them the token 1, with nothing computed yet.\<close>

definition ex_request :: "string \<Rightarrow> nat \<Rightarrow> Request" where
  "ex_request rid n =
     \<lparr>request_id = rid, all_token_ids = replicate n 1, num_computed_tokens = 0,
      spec_token_ids = [], prompt_logprobs = None, cache_partition_key = None\<rparr>"

text \<open>The chain of two hashes of a prompt of 32 such tokens, for the block size 16.\<close>

definition ex_chain :: "BlockHashType list" where
  "ex_chain =
     [\<lparr>hash_value = 16, parent_hash = None, partition_key = None\<rparr>,
      \<lparr>hash_value = 32, parent_hash = Some 16, partition_key = None\<rparr>]"

text \<open>A manager with block size 16, 8 blocks, a model length of 64 tokens, caching on, no
  preallocation and no telemetry; the same manager after \<open>get_computed_blocks\<close> for the
  request \<open>a\<close> of 32 tokens; and after \<open>allocate_slots\<close> for the 32 tokens of \<open>a\<close>, which
  leaves both blocks of the prompt in the cache index.\<close>

definition ex_manager0 :: KVCacheManager where
  "ex_manager0 = new_manager 16 8 64 True ex_hash 0 False None FullAttentionManager"

definition ex_manager1 :: KVCacheManager where
  "ex_manager1 = snd (get_computed_blocks ex_manager0 (ex_request ''a'' 32))"

definition ex_manager2 :: KVCacheManager where
  "ex_manager2 = snd (allocate_slots ex_manager1 (ex_request ''a'' 32) 32 (Some []))"

text \<open>Further example states: a manager without caching; a manager that preallocates
  64 tokens (4 blocks) and one constructed with a preallocation of -64 tokens; the request \<open>a\<close> with one pending speculative token; the request
  \<open>b\<close> asking for prompt log-probabilities; the request \<open>a\<close> after it has grown to 33
  tokens of which 32 are computed; a manager of two blocks with statistics logging and a
  telemetry object, the same after allocating the 32 tokens of \<open>a\<close>, and after freeing
  \<open>a\<close>, which leaves both blocks cached and unreferenced; and a manager whose policy
  releases the blocks that lie wholly before the last 16 computed tokens, with a request
  holding two blocks of which the first is now skipped.\<close>

definition ex_manager_nocache :: KVCacheManager where
  "ex_manager_nocache = new_manager 16 8 64 False ex_hash 0 False None FullAttentionManager"

definition ex_manager_prealloc :: KVCacheManager where
  "ex_manager_prealloc = new_manager 16 8 1024 True ex_hash 64 False None FullAttentionManager"

definition ex_manager_negative :: KVCacheManager where
  "ex_manager_negative =
     new_manager 16 8 1024 True ex_hash (- 64) False None FullAttentionManager"

definition ex_spec_request :: Request where
  "ex_spec_request = (ex_request ''a'' 32)\<lparr>spec_token_ids := [7]\<rparr>"

definition ex_logprobs_request :: Request where
  "ex_logprobs_request = (ex_request ''b'' 32)\<lparr>prompt_logprobs := Some 5\<rparr>"

definition ex_grown_request :: Request where
  "ex_grown_request = (ex_request ''a'' 33)\<lparr>num_computed_tokens := 32\<rparr>"

definition ex_small0 :: KVCacheManager where
  "ex_small0 = new_manager 16 2 64 True ex_hash 0 True
                 (Some (CacheTelemetry_init ''out'' True 0)) FullAttentionManager"

definition ex_small1 :: KVCacheManager where
  "ex_small1 = snd (allocate_slots ex_small0 (ex_request ''a'' 32) 32 None)"

definition ex_small2 :: KVCacheManager where
  "ex_small2 = free ex_small1 (ex_request ''a'' 32)"

definition ex_window_policy :: SpecializedManager where
  "ex_window_policy =
     \<lparr>find_longest_cache_hit = full_attention_hit,
      remove_skipped_blocks =
        (\<lambda>blocks n. (drop (nat ((n - 16) div 16)) blocks,
                      take (nat ((n - 16) div 16)) blocks))\<rparr>"

definition ex_window_manager :: KVCacheManager where
  "ex_window_manager =
     (new_manager 16 4 64 True ex_hash 0 False None ex_window_policy)
       \<lparr>req_to_blocks := [''a'' \<mapsto> [0, 1]],
        block_pool :=
          \<lparr>ref_cnt = (\<lambda>_. 0)(0 := 1, 1 := 1), content_hash = (\<lambda>_. None),
           evictable_queue = [2, 3], cache_index = Map.empty\<rparr>\<rparr>"

definition ex_window_request :: Request where
  "ex_window_request = (ex_request ''a'' 32)\<lparr>num_computed_tokens := 32\<rparr>"

section \<open>Helper lemmas\<close>

lemma ex_request_fields:
  "request_id (ex_request rid n) = rid"
  "all_token_ids (ex_request rid n) = replicate n 1"
  "num_computed_tokens (ex_request rid n) = 0"
  "spec_token_ids (ex_request rid n) = []"
  "prompt_logprobs (ex_request rid n) = None"
  "cache_partition_key (ex_request rid n) = None"
  by (simp_all add: ex_request_def)

lemma ex_chain_eq: "hash_request_tokens ex_hash 16 (ex_request rid 32) = ex_chain"
  by (simp add: hash_request_tokens_def full_token_blocks_def ex_request_fields ex_hash_def
      ex_chain_def upt_conv_Cons Let_def sum_list_replicate)

lemma ex_manager1_eq:
  "ex_manager1 =
     ex_manager0\<lparr>req_to_block_hashes := [''a'' \<mapsto> ex_chain],
       prefix_cache_stats := PrefixCacheStats_init\<lparr>requests := 1, queries := 1\<rparr>\<rparr>"
  unfolding ex_manager1_def
  by (simp add: get_computed_blocks_def Let_def lookup_list_def ex_chain_eq ex_chain_def
      ex_manager0_def new_manager_def ex_request_fields request_num_tokens_def
      match_block_hashes_def FullAttentionManager_def BlockPool_init_def
      PrefixCacheStats_init_def)

lemma ex_manager2_eq:
  "ex_manager2 =
     ex_manager1\<lparr>
       req_to_blocks := [''a'' \<mapsto> [0, 1]],
       num_cached_block := [''a'' \<mapsto> 2],
       block_pool :=
         \<lparr>ref_cnt = (\<lambda>_. 0)(0 := 1, 1 := 1),
          content_hash = (\<lambda>_. None)(0 := Some (ex_chain ! 0), 1 := Some (ex_chain ! 1)),
          evictable_queue = [2, 3, 4, 5, 6, 7],
          cache_index = [16 \<mapsto> 0, 32 \<mapsto> 1]\<rparr>\<rparr>"
  unfolding ex_manager2_def ex_manager1_eq
  by (simp add: allocate_slots_def pull_new_blocks_def cache_new_full_blocks_def Let_def
      lookup_list_def ex_chain_eq ex_chain_def ex_manager0_def new_manager_def
      ex_request_fields cdiv_def get_num_free_blocks_def free_blocks_def touch_def
      get_new_blocks_def hand_out_def cache_full_blocks_def cache_block_def
      FullAttentionManager_def BlockPool_init_def PrefixCacheStats_init_def upt_conv_Cons)

lemma length_hash_token_blocks:
  "length (hash_token_blocks f key parent bs) = length bs"
  by (induction bs arbitrary: parent) (simp_all add: Let_def)

lemma length_full_token_blocks:
  "0 < bsz \<Longrightarrow> length (full_token_blocks bsz toks) = length toks div nat bsz"
  by (simp add: full_token_blocks_def)

lemma length_hash_request_tokens:
  "0 < bsz \<Longrightarrow>
   length (hash_request_tokens f bsz request) = length (all_token_ids request) div nat bsz"
  by (simp add: hash_request_tokens_def length_hash_token_blocks length_full_token_blocks)

lemma full_attention_hit_length:
  "length (full_attention_hit p hs) \<le> length hs"
  by (induction hs) (simp_all split: option.split)

lemma exact_multiple_chain:
  assumes bs: "0 < bsz" and toks: "toks \<noteq> []" and mult: "int (length toks) mod bsz = 0"
  shows "int (length toks div nat bsz) * bsz = int (length toks)"
    and "0 < length toks div nat bsz"
proof -
  obtain k where k: "int (length toks) = bsz * k"
    using mult by (auto simp: mod_eq_0_iff_dvd)
  have kpos: "0 < k"
  proof (rule ccontr)
    assume "\<not> 0 < k"
    then have "bsz * k \<le> 0" using bs by (simp add: mult_le_0_iff)
    moreover have "0 < int (length toks)" using toks by simp
    ultimately show False using k by simp
  qed
  have len: "length toks = nat bsz * nat k"
    using k bs kpos by (metis nat_int nat_mult_distrib less_imp_le)
  have d: "length toks div nat bsz = nat k"
    using len bs by simp
  show "int (length toks div nat bsz) * bsz = int (length toks)"
    using d k kpos by (simp add: mult.commute)
  show "0 < length toks div nat bsz"
    using d kpos by simp
qed

lemma match_block_hashes_returns:
  assumes "log_stats m \<longrightarrow> cache_telemetry m \<noteq> None"
  shows "\<exists>m'. match_block_hashes m r hs (Some h) =
           (Inr (find_longest_cache_hit (specialized_manager m) (block_pool m) hs,
                 int (length (find_longest_cache_hit (specialized_manager m) (block_pool m) hs))
                   * block_size m), m')
         \<and> req_to_block_hashes m' (request_id r) = Some (hs @ [h])"
  using assms
  by (cases "cache_telemetry m") (auto simp: match_block_hashes_def Let_def)

lemma record_hit_first:
  "first_block t \<Longrightarrow> record_hit t n rid = t\<lparr>first_block := False\<rparr>"
  by (simp add: record_hit_def)

lemma record_hit_later_total_hits:
  "\<not> first_block t \<Longrightarrow> 0 < n \<Longrightarrow> total_hits (record_hit t n rid) = total_hits t + n"
  by (simp add: record_hit_def Let_def split: option.split)

lemma record_hit_later_first_block:
  "\<not> first_block t \<Longrightarrow> \<not> first_block (record_hit t n rid)"
  by (simp add: record_hit_def Let_def split: option.split)

lemma record_hits_later:
  "\<not> first_block t \<Longrightarrow> \<forall>c \<in> set calls. 0 < fst (snd c) \<Longrightarrow>
   total_hits (record_hits t calls) = total_hits t + sum_list (map (\<lambda>c. fst (snd c)) calls)"
proof (induction calls arbitrary: t)
  case Nil
  then show ?case by simp
next
  case (Cons c calls)
  obtain now n rid where c: "c = (now, n, rid)" by (cases c)
  let ?t = "record_hit (t\<lparr>clock := now\<rparr>) n rid"
  have nf: "\<not> first_block (t\<lparr>clock := now\<rparr>)" using Cons.prems(1) by simp
  have pos: "0 < n" using Cons.prems(2) c by simp
  have "total_hits (record_hits ?t calls)
          = total_hits ?t + sum_list (map (\<lambda>c. fst (snd c)) calls)"
    using Cons.IH[of ?t] record_hit_later_first_block[OF nf] Cons.prems(2) by simp
  then show ?case using record_hit_later_total_hits[OF nf pos] c by simp
qed

lemma ex_manager2_fields:
  "enable_caching ex_manager2" "block_size ex_manager2 = 16" "\<not> log_stats ex_manager2"
  "req_to_block_hashes ex_manager2 ''b'' = None"
  "caching_hash_fn ex_manager2 = ex_hash"
  "specialized_manager ex_manager2 = FullAttentionManager"
  "cache_index (block_pool ex_manager2) = [16 \<mapsto> 0, 32 \<mapsto> 1]"
  by (simp_all add: ex_manager2_eq ex_manager1_eq ex_manager0_def new_manager_def)

lemma release_skipped_fields:
  "block_size (release_skipped m r) = block_size m"
  "enable_caching (release_skipped m r) = enable_caching m"
  "lookup_list (req_to_blocks (release_skipped m r)) (request_id r)
     = fst (remove_skipped_blocks (specialized_manager m)
              (lookup_list (req_to_blocks m) (request_id r)) (num_computed_tokens r))"
  "block_pool (release_skipped m r)
     = free_blocks (block_pool m)
         (snd (remove_skipped_blocks (specialized_manager m)
                 (lookup_list (req_to_blocks m) (request_id r)) (num_computed_tokens r)))"
  by (simp_all add: release_skipped_def Let_def lookup_list_def)

lemma allocate_slots_unfold:
  assumes "n \<noteq> 0" and "block_size m \<noteq> 0"
  shows "allocate_slots m r n arg =
     (let ncb = new_computed_list arg; m1 = release_skipped m r
      in if blocks_needed m r n ncb
              > get_num_free_blocks (block_pool m1)
                - int (length (filter (\<lambda>b. ref_cnt (block_pool m1) b = 0) ncb))
         then (Inr None, m1)
         else if \<not> enable_caching m \<and> ncb \<noteq> [] then (Inl AssertionError, m1)
         else (case pull_new_blocks (pin_computed m r ncb) r (blocks_needed m r n ncb) of
                 (Inl e, m3) \<Rightarrow> (Inl e, m3)
               | (Inr new_blocks, m3) \<Rightarrow>
                   (Inr (Some new_blocks),
                    cache_new_full_blocks m3 r (total_computed_tokens m r ncb) n ncb)))"
  using assms
  unfolding allocate_slots_def Let_def new_computed_list_def release_skipped_def
      blocks_needed_def pin_computed_def total_computed_tokens_def lookup_list_def
  by (simp split: prod.split sum.split)

lemma allocate_slots_success:
  assumes ok: "allocate_slots m r n arg = (Inr (Some new_blocks), m')"
  shows "n \<noteq> 0 \<and> block_size m \<noteq> 0
       \<and> blocks_needed m r n (new_computed_list arg)
           \<le> get_num_free_blocks (block_pool (release_skipped m r))
             - int (length (filter (\<lambda>b. ref_cnt (block_pool (release_skipped m r)) b = 0)
                              (new_computed_list arg)))
       \<and> (enable_caching m \<or> new_computed_list arg = [])
       \<and> (\<exists>m3. pull_new_blocks (pin_computed m r (new_computed_list arg)) r
                  (blocks_needed m r n (new_computed_list arg)) = (Inr new_blocks, m3)
              \<and> m' = cache_new_full_blocks m3 r
                       (total_computed_tokens m r (new_computed_list arg)) n
                       (new_computed_list arg))"
proof -
  have nz: "n \<noteq> 0" using ok by (auto simp: allocate_slots_def)
  have bs: "block_size m \<noteq> 0"
    using ok nz by (auto simp: allocate_slots_def Let_def)
  show ?thesis
    using ok unfolding allocate_slots_unfold[OF nz bs] Let_def
    by (auto simp: nz bs split: if_splits prod.splits sum.splits)
qed


lemma length_candidates:
  "length (filter P q @ filter (\<lambda>b. \<not> P b) q) = length q"
  by (simp add: sum_length_filter_compl)

lemma get_new_blocks_ok:
  assumes "n \<le> get_num_free_blocks p"
  shows "\<exists>new_blocks p'. get_new_blocks p n = Inr (new_blocks, p')
           \<and> length new_blocks = nat n"
  using assms length_candidates[of "\<lambda>b. content_hash p b = None" "evictable_queue p"]
  by (simp add: get_new_blocks_def Let_def get_num_free_blocks_def)

lemma pull_new_blocks_unfold:
  "pull_new_blocks m r k =
     (if k \<le> 0 then (Inr [], m)
      else if \<not> num_pulled m r k > 0 then (Inl AssertionError, m)
      else (case get_new_blocks (block_pool m) (num_pulled m r k) of
              Inl e \<Rightarrow> (Inl e, m)
            | Inr (new_blocks, pool) \<Rightarrow>
                (Inr new_blocks,
                 m\<lparr>block_pool := pool,
                   req_to_blocks :=
                     (req_to_blocks m)(request_id r \<mapsto>
                        lookup_list (req_to_blocks m) (request_id r) @ new_blocks)\<rparr>)))"
proof -
  have le: "\<not> num_pulled m r k > get_num_free_blocks (block_pool m)"
    by (simp add: num_pulled_def)
  show ?thesis
    using le unfolding pull_new_blocks_def Let_def num_pulled_def
    by (simp split: sum.split prod.split)
qed

lemma pull_new_blocks_result:
  assumes "pull_new_blocks m r k = (Inr new_blocks, m3)"
  shows "prefix_cache_stats m3 = prefix_cache_stats m"
    and "cache_telemetry m3 = cache_telemetry m"
    and "enable_caching m3 = enable_caching m"
    and "block_size m3 = block_size m"
    and "num_cached_block m3 = num_cached_block m"
    and "req_to_block_hashes m3 = req_to_block_hashes m"
    and "caching_hash_fn m3 = caching_hash_fn m"
    and "lookup_list (req_to_blocks m3) (request_id r)
           = lookup_list (req_to_blocks m) (request_id r) @ new_blocks"
    and "length new_blocks = (if k \<le> 0 then 0 else nat (num_pulled m r k))"
proof -
  have *: "prefix_cache_stats m3 = prefix_cache_stats m
    \<and> cache_telemetry m3 = cache_telemetry m
    \<and> enable_caching m3 = enable_caching m
    \<and> block_size m3 = block_size m
    \<and> num_cached_block m3 = num_cached_block m
    \<and> req_to_block_hashes m3 = req_to_block_hashes m
    \<and> caching_hash_fn m3 = caching_hash_fn m
    \<and> lookup_list (req_to_blocks m3) (request_id r)
           = lookup_list (req_to_blocks m) (request_id r) @ new_blocks
    \<and> length new_blocks = (if k \<le> 0 then 0 else nat (num_pulled m r k))"
  proof (cases "k \<le> 0")
    case True
    then show ?thesis using assms by (simp add: pull_new_blocks_unfold)
  next
    case False
    have pos: "num_pulled m r k > 0"
      using assms False by (auto simp: pull_new_blocks_unfold split: if_splits)
    have le: "num_pulled m r k \<le> get_num_free_blocks (block_pool m)"
      by (simp add: num_pulled_def)
    obtain nb p' where g: "get_new_blocks (block_pool m) (num_pulled m r k) = Inr (nb, p')"
      and len: "length nb = nat (num_pulled m r k)"
      using get_new_blocks_ok[OF le] by blast
    have "new_blocks = nb"
      and "m3 = m\<lparr>block_pool := p',
                   req_to_blocks :=
                     (req_to_blocks m)(request_id r \<mapsto>
                        lookup_list (req_to_blocks m) (request_id r) @ nb)\<rparr>"
      using assms False pos g by (auto simp: pull_new_blocks_unfold)
    then show ?thesis using len False by (simp add: lookup_list_def)
  qed
  show "prefix_cache_stats m3 = prefix_cache_stats m"
    and "cache_telemetry m3 = cache_telemetry m"
    and "enable_caching m3 = enable_caching m"
    and "block_size m3 = block_size m"
    and "num_cached_block m3 = num_cached_block m"
    and "req_to_block_hashes m3 = req_to_block_hashes m"
    and "caching_hash_fn m3 = caching_hash_fn m"
    and "lookup_list (req_to_blocks m3) (request_id r)
           = lookup_list (req_to_blocks m) (request_id r) @ new_blocks"
    and "length new_blocks = (if k \<le> 0 then 0 else nat (num_pulled m r k))"
    using * by simp_all
qed

lemma pin_computed_fields:
  "prefix_cache_stats (pin_computed m r ncb) = prefix_cache_stats m"
  "cache_telemetry (pin_computed m r ncb) = cache_telemetry m"
  "enable_caching (pin_computed m r ncb) = enable_caching m"
  "block_size (pin_computed m r ncb) = block_size m"
  "num_cached_block (pin_computed m r ncb) = num_cached_block m"
  "req_to_block_hashes (pin_computed m r ncb) = req_to_block_hashes m"
  "caching_hash_fn (pin_computed m r ncb) = caching_hash_fn m"
  "max_num_blocks_per_req (pin_computed m r ncb) = max_num_blocks_per_req m"
  "num_preallocate_blocks (pin_computed m r ncb) = num_preallocate_blocks m"
  "lookup_list (req_to_blocks (pin_computed m r ncb)) (request_id r)
     = lookup_list (req_to_blocks (release_skipped m r)) (request_id r) @ ncb"
  "block_pool (pin_computed m r ncb)
     = (if enable_caching m then touch (block_pool (release_skipped m r)) ncb
        else block_pool (release_skipped m r))"
  by (simp_all add: pin_computed_def release_skipped_def Let_def lookup_list_def)

lemma cache_new_full_blocks_fields:
  "prefix_cache_stats (cache_new_full_blocks m r ct n ncb) = prefix_cache_stats m"
  "cache_telemetry (cache_new_full_blocks m r ct n ncb) = cache_telemetry m"
  "req_to_blocks (cache_new_full_blocks m r ct n ncb) = req_to_blocks m"
  by (simp_all add: cache_new_full_blocks_def Let_def)

lemma free_blocks_Nil: "free_blocks p [] = p"
  by (simp add: free_blocks_def)

lemma free_blocks_Cons: "free_blocks p (b # bl) = free_blocks (free_block p b) bl"
  by (simp add: free_blocks_def)

lemma free_blocks_queue:
  "distinct bl \<Longrightarrow> \<forall>b \<in> set bl. ref_cnt p b = 1 \<Longrightarrow>
   evictable_queue (free_blocks p bl) = evictable_queue p @ bl"
proof (induction bl arbitrary: p)
  case Nil
  then show ?case by (simp add: free_blocks_Nil)
next
  case (Cons b bl)
  let ?p = "free_block p b"
  have q: "evictable_queue ?p = evictable_queue p @ [b]"
    using Cons.prems(2) by (simp add: free_block_def Let_def)
  have refs: "\<forall>c \<in> set bl. ref_cnt ?p c = 1"
    using Cons.prems by (auto simp: free_block_def Let_def)
  have "evictable_queue (free_blocks ?p bl) = evictable_queue ?p @ bl"
    using Cons.IH[of ?p] Cons.prems(1) refs by simp
  then show ?case by (simp add: free_blocks_Cons q)
qed

lemma touch_Nil: "touch p [] = p"
  by (simp add: touch_def)

lemma touch_Cons: "touch p (b # bl) = touch (touch_block p b) bl"
  by (simp add: touch_def)

lemma length_filter_mono:
  "(\<And>x. x \<in> set xs \<Longrightarrow> P x \<Longrightarrow> Q x) \<Longrightarrow>
   length (filter P xs) \<le> length (filter Q xs)"
  by (induction xs) auto

lemma length_remove1_ge: "int (length xs) - 1 \<le> int (length (remove1 x xs))"
proof (cases "x \<in> set xs")
  case True
  then have "0 < length xs" by (rule length_pos_if_in_set)
  then show ?thesis using True by (simp add: length_remove1 of_nat_diff)
next
  case False
  then show ?thesis by (simp add: length_remove1)
qed

lemma touch_keeps_free_blocks:
  "\<forall>b. 0 \<le> ref_cnt p b \<Longrightarrow>
   get_num_free_blocks p - int (length (filter (\<lambda>b. ref_cnt p b = 0) bl))
     \<le> get_num_free_blocks (touch p bl)"
proof (induction bl arbitrary: p)
  case Nil
  then show ?case by (simp add: touch_Nil)
next
  case (Cons b bl)
  let ?p = "touch_block p b"
  have refs: "\<forall>c. 0 \<le> ref_cnt ?p c"
    using Cons.prems by (simp add: touch_block_def)
  have queue: "get_num_free_blocks p - (if ref_cnt p b = 0 then 1 else 0)
                 \<le> get_num_free_blocks ?p"
    using length_remove1_ge[of "evictable_queue p" b]
    by (simp add: touch_block_def get_num_free_blocks_def)
  have sub: "length (filter (\<lambda>c. ref_cnt ?p c = 0) bl)
               \<le> length (filter (\<lambda>c. ref_cnt p c = 0) bl)"
  proof (rule length_filter_mono)
    fix c assume "c \<in> set bl" and z: "ref_cnt ?p c = 0"
    have "0 \<le> ref_cnt p b" using Cons.prems by simp
    then have "c \<noteq> b" using z by (auto simp: touch_block_def)
    then show "ref_cnt p c = 0" using z by (simp add: touch_block_def)
  qed
  have "get_num_free_blocks ?p - int (length (filter (\<lambda>c. ref_cnt ?p c = 0) bl))
          \<le> get_num_free_blocks (touch ?p bl)"
    using Cons.IH[OF refs] .
  then show ?case using queue sub by (auto simp: touch_Cons split: if_splits)
qed


lemma foldl_cache_block_content_hash:
  "b \<notin> fst ` set bhs \<Longrightarrow> content_hash (foldl cache_block p bhs) b = content_hash p b"
proof (induction bhs arbitrary: p)
  case Nil
  then show ?case by simp
next
  case (Cons bh bhs)
  obtain c h where bh: "bh = (c, h)" by (cases bh)
  have "content_hash (cache_block p bh) b = content_hash p b"
    using Cons.prems bh by (auto simp: cache_block_def)
  then show ?case using Cons by simp
qed

lemma cache_full_blocks_content_hash:
  assumes "b \<notin> set (drop (nat lo) (take (nat hi) blocks))"
  shows "content_hash (cache_full_blocks p r blocks hs lo hi bsz f) b = content_hash p b"
proof -
  have *: "b \<notin> fst ` set (drop (nat lo) (take (nat hi) (zip blocks chain)))" for chain
    using assms by (auto simp: take_zip drop_zip dest: set_zip_leftD)
  show ?thesis
    unfolding cache_full_blocks_def Let_def
    by (rule foldl_cache_block_content_hash) (rule *)
qed

lemma pull_new_blocks_stats:
  "prefix_cache_stats (snd (pull_new_blocks m r k)) = prefix_cache_stats m"
  "cache_telemetry (snd (pull_new_blocks m r k)) = cache_telemetry m"
  by (simp_all add: pull_new_blocks_unfold split: sum.split prod.split)

lemma allocate_slots_eviction_counters:
  "prefix_cache_stats (snd (allocate_slots m r n arg)) = prefix_cache_stats m
   \<and> cache_telemetry (snd (allocate_slots m r n arg)) = cache_telemetry m"
proof (cases "n = 0 \<or> block_size m = 0")
  case True
  then show ?thesis by (auto simp: allocate_slots_def Let_def)
next
  case False
  then have nz: "n \<noteq> 0" and bs: "block_size m \<noteq> 0" by simp_all
  let ?ncb = "new_computed_list arg"
  have rel: "prefix_cache_stats (release_skipped m r) = prefix_cache_stats m"
    "cache_telemetry (release_skipped m r) = cache_telemetry m"
    by (simp_all add: release_skipped_def Let_def)
  obtain res m3 where p: "pull_new_blocks (pin_computed m r ?ncb) r (blocks_needed m r n ?ncb)
                            = (res, m3)"
    by (cases "pull_new_blocks (pin_computed m r ?ncb) r (blocks_needed m r n ?ncb)")
  have m3: "prefix_cache_stats m3 = prefix_cache_stats m" "cache_telemetry m3 = cache_telemetry m"
    using pull_new_blocks_stats[of "pin_computed m r ?ncb" r "blocks_needed m r n ?ncb"] p
    by (simp_all add: pin_computed_fields)
  show ?thesis
    unfolding allocate_slots_unfold[OF nz bs] Let_def
    using rel m3 p by (simp add: cache_new_full_blocks_fields split: sum.split)
qed

lemma allocate_slots_zero:
  "allocate_slots m r 0 ncb = (Inl ValueError, m)"
  by (simp add: allocate_slots_def)

lemma pull_new_blocks_config:
  "block_size (snd (pull_new_blocks m r k)) = block_size m"
  "max_model_len (snd (pull_new_blocks m r k)) = max_model_len m"
  "max_num_blocks_per_req (snd (pull_new_blocks m r k)) = max_num_blocks_per_req m"
  "rid \<noteq> request_id r \<Longrightarrow>
     req_to_blocks (snd (pull_new_blocks m r k)) rid = req_to_blocks m rid"
  by (simp_all add: pull_new_blocks_unfold split: sum.split prod.split)

lemma pin_computed_config:
  "max_model_len (pin_computed m r ncb) = max_model_len m"
  "rid \<noteq> request_id r \<Longrightarrow> req_to_blocks (pin_computed m r ncb) rid = req_to_blocks m rid"
  by (simp_all add: pin_computed_def release_skipped_def Let_def)

lemma cache_new_full_blocks_config:
  "block_size (cache_new_full_blocks m r ct n ncb) = block_size m"
  "max_model_len (cache_new_full_blocks m r ct n ncb) = max_model_len m"
  "max_num_blocks_per_req (cache_new_full_blocks m r ct n ncb) = max_num_blocks_per_req m"
  by (simp_all add: cache_new_full_blocks_def Let_def)

lemma allocate_slots_config:
  assumes ok: "allocate_slots m r n arg = (Inr (Some new_blocks), m')"
  shows "block_size m' = block_size m"
    and "max_model_len m' = max_model_len m"
    and "max_num_blocks_per_req m' = max_num_blocks_per_req m"
    and "rid \<noteq> request_id r \<Longrightarrow> req_to_blocks m' rid = req_to_blocks m rid"
proof -
  let ?ncb = "new_computed_list arg"
  let ?m2 = "pin_computed m r ?ncb"
  let ?k = "blocks_needed m r n ?ncb"
  obtain m3 where pull: "pull_new_blocks ?m2 r ?k = (Inr new_blocks, m3)"
    and m': "m' = cache_new_full_blocks m3 r (total_computed_tokens m r ?ncb) n ?ncb"
    using allocate_slots_success[OF ok] by blast
  have m3: "m3 = snd (pull_new_blocks ?m2 r ?k)" using pull by simp
  show "block_size m' = block_size m"
    unfolding m' m3
    by (simp add: cache_new_full_blocks_config pull_new_blocks_config pin_computed_fields)
  show "max_model_len m' = max_model_len m"
    unfolding m' m3
    by (simp add: cache_new_full_blocks_config pull_new_blocks_config pin_computed_config)
  show "max_num_blocks_per_req m' = max_num_blocks_per_req m"
    unfolding m' m3
    by (simp add: cache_new_full_blocks_config pull_new_blocks_config pin_computed_fields)
  show "req_to_blocks m' rid = req_to_blocks m rid" if "rid \<noteq> request_id r"
    unfolding m' m3 using that
    by (simp add: cache_new_full_blocks_fields pull_new_blocks_config pin_computed_config)
qed

lemma allocate_slots_block_list:
  fixes m :: KVCacheManager and r :: Request and arg :: "block list option" and n :: int
  defines "ncb \<equiv> new_computed_list arg"
  defines "held \<equiv> lookup_list (req_to_blocks (release_skipped m r)) (request_id r)"
  defines "required \<equiv> cdiv (total_computed_tokens m r ncb + n) (block_size m)"
  assumes ok: "allocate_slots m r n arg = (Inr (Some new_blocks), m')"
  shows "lookup_list (req_to_blocks m') (request_id r) = held @ ncb @ new_blocks"
    and "int (length held) + int (length ncb) \<le> max_num_blocks_per_req m \<Longrightarrow>
         int (length (held @ ncb @ new_blocks)) \<le> max_num_blocks_per_req m"
    and "int (length (held @ ncb @ new_blocks))
            \<le> max (int (length held) + int (length ncb))
                  (required + num_preallocate_blocks m)"
    and "0 \<le> num_preallocate_blocks m \<Longrightarrow>
         \<forall>b. 0 \<le> ref_cnt (block_pool (release_skipped m r)) b \<Longrightarrow>
         required \<le> max_num_blocks_per_req m \<Longrightarrow>
         required \<le> int (length (held @ ncb @ new_blocks))"
proof -
  let ?m2 = "pin_computed m r ncb"
  let ?k = "blocks_needed m r n ncb"
  let ?p1 = "block_pool (release_skipped m r)"
  let ?limit = "max_num_blocks_per_req m"
  from allocate_slots_success[OF ok]
  obtain m3 where pull: "pull_new_blocks ?m2 r ?k = (Inr new_blocks, m3)"
    and m': "m' = cache_new_full_blocks m3 r (total_computed_tokens m r ncb) n ncb"
    and room: "?k \<le> get_num_free_blocks ?p1
                 - int (length (filter (\<lambda>b. ref_cnt ?p1 b = 0) ncb))"
    unfolding ncb_def by blast
  note f3 = pull_new_blocks_result[OF pull, unfolded pin_computed_fields]
  have k: "?k = required - int (length held) - int (length ncb)"
    by (simp add: blocks_needed_def required_def held_def)
  show "lookup_list (req_to_blocks m') (request_id r) = held @ ncb @ new_blocks"
    unfolding m' using f3(8) by (simp add: cache_new_full_blocks_fields held_def)
  have pulled: "num_pulled ?m2 r ?k
      = min (?k + num_preallocate_blocks m)
          (min (get_num_free_blocks (block_pool ?m2))
               (?limit - (int (length held) + int (length ncb))))"
    by (simp add: num_pulled_def pin_computed_fields held_def)
  have len: "int (length new_blocks) = (if ?k \<le> 0 then 0 else num_pulled ?m2 r ?k)"
  proof (cases "?k \<le> 0")
    case True
    then show ?thesis using f3(9) by simp
  next
    case False
    then have "0 < num_pulled ?m2 r ?k"
      using pull by (auto simp: pull_new_blocks_unfold split: if_splits)
    then show ?thesis using f3(9) False by simp
  qed
  show "int (length (held @ ncb @ new_blocks)) \<le> ?limit"
    if "int (length held) + int (length ncb) \<le> ?limit"
    using len pulled that by (auto split: if_splits)
  show "int (length (held @ ncb @ new_blocks))
          \<le> max (int (length held) + int (length ncb)) (required + num_preallocate_blocks m)"
    using len pulled k by (auto split: if_splits)
  show "required \<le> int (length (held @ ncb @ new_blocks))"
    if pre: "0 \<le> num_preallocate_blocks m" and refs: "\<forall>b. 0 \<le> ref_cnt ?p1 b"
      and within: "required \<le> ?limit"
  proof (cases "?k \<le> 0")
    case True
    then show ?thesis using k by simp
  next
    case False
    have "get_num_free_blocks ?p1 - int (length (filter (\<lambda>b. ref_cnt ?p1 b = 0) ncb))
            \<le> get_num_free_blocks (block_pool ?m2)"
    proof (cases "enable_caching m")
      case True
      then show ?thesis
        using touch_keeps_free_blocks[OF refs, of ncb] by (simp add: pin_computed_fields)
    next
      case False
      then show ?thesis by (simp add: pin_computed_fields)
    qed
    then have "?k \<le> get_num_free_blocks (block_pool ?m2)" using room by simp
    then have "?k \<le> num_pulled ?m2 r ?k"
      using pulled pre within k by simp
    then show ?thesis using len False k by simp
  qed
qed

lemma allocations_within_limit:
  assumes "allocations m m'"
    and "\<forall>rid. int (length (lookup_list (req_to_blocks m) rid)) \<le> max_num_blocks_per_req m"
  shows "block_size m' = block_size m \<and> max_model_len m' = max_model_len m
       \<and> max_num_blocks_per_req m' = max_num_blocks_per_req m
       \<and> (\<forall>rid. int (length (lookup_list (req_to_blocks m') rid))
                   \<le> max_num_blocks_per_req m)"
  using assms
proof (induction rule: allocations.induct)
  case start
  then show ?case by simp
next
  case (call m1 r n arg new_blocks m2)
  have IH: "block_size m1 = block_size m" "max_model_len m1 = max_model_len m"
    "max_num_blocks_per_req m1 = max_num_blocks_per_req m"
    "\<forall>rid. int (length (lookup_list (req_to_blocks m1) rid)) \<le> max_num_blocks_per_req m"
    using call.IH call.prems by simp_all
  note cfg = allocate_slots_config[OF call.hyps(2)]
  note bl = allocate_slots_block_list[OF call.hyps(2)]
  have "int (length (lookup_list (req_to_blocks m2) rid)) \<le> max_num_blocks_per_req m" for rid
  proof (cases "rid = request_id r")
    case True
    show ?thesis
      unfolding True bl(1) using bl(2)[OF call.hyps(3)] IH(3) by simp
  next
    case False
    then have "lookup_list (req_to_blocks m2) rid = lookup_list (req_to_blocks m1) rid"
      using cfg(4)[of rid] by (simp add: lookup_list_def)
    then show ?thesis using IH(4) by simp
  qed
  then show ?case using cfg(1,2,3) IH(1,2,3) by simp
qed

lemmas ex_eval =
  allocate_slots_def pull_new_blocks_def cache_new_full_blocks_def Let_def lookup_list_def
  new_manager_def ex_request_fields cdiv_def get_num_free_blocks_def free_blocks_def
  free_block_def touch_def touch_block_def get_new_blocks_def hand_out_def
  cache_full_blocks_def cache_block_def FullAttentionManager_def BlockPool_init_def
  PrefixCacheStats_init_def upt_conv_Cons hash_request_tokens_def full_token_blocks_def
  ex_hash_def sum_list_replicate

lemma ex_prealloc_call:
  "fst (allocate_slots ex_manager_prealloc (ex_request ''a'' 1) 1 None)
     = Inr (Some [0, 1, 2, 3, 4])"
  "req_to_blocks (snd (allocate_slots ex_manager_prealloc (ex_request ''a'' 1) 1 None)) ''a''
     = Some [0, 1, 2, 3, 4]"
  by (simp_all add: ex_manager_prealloc_def ex_eval)

lemma ex_negative_call:
  "num_preallocate_blocks ex_manager_negative = - 4"
  "cdiv (num_computed_tokens (ex_request ''a'' 96) + 96) (block_size ex_manager_negative) = 6"
  "fst (allocate_slots ex_manager_negative (ex_request ''a'' 96) 96 None) = Inr (Some [0, 1])"
  "req_to_blocks (snd (allocate_slots ex_manager_negative (ex_request ''a'' 96) 96 None)) ''a''
     = Some [0, 1]"
  by (simp_all add: ex_manager_negative_def ex_eval)

lemma ex_spec_call:
  "fst (allocate_slots ex_manager1 ex_spec_request 32 (Some [])) = Inr (Some [0, 1])"
  "num_cached_block (snd (allocate_slots ex_manager1 ex_spec_request 32 (Some []))) ''a''
     = Some 1"
  "cache_index (block_pool (snd (allocate_slots ex_manager1 ex_spec_request 32 (Some []))))
     = [16 \<mapsto> 0]"
  "content_hash (block_pool (snd (allocate_slots ex_manager1 ex_spec_request 32 (Some [])))) 1
     = None"
  by (simp_all add: ex_manager1_eq ex_manager0_def ex_spec_request_def ex_chain_def ex_eval)

lemma ex_grown_call:
  "fst (allocate_slots ex_manager2 ex_grown_request 1 None) = Inr (Some [2])"
  "req_to_blocks (snd (allocate_slots ex_manager2 ex_grown_request 1 None)) ''a''
     = Some [0, 1, 2]"
  by (simp_all add: ex_manager2_eq ex_manager1_eq ex_manager0_def ex_grown_request_def
      ex_chain_def ex_eval)

lemma ex_first_call:
  "fst (allocate_slots ex_manager1 (ex_request ''a'' 32) 32 (Some [])) = Inr (Some [0, 1])"
  by (simp add: ex_manager1_eq ex_manager0_def ex_chain_def ex_eval)

lemma ex_small2_fields:
  "log_stats ex_small2"
  "evictable_queue (block_pool ex_small2) = [1, 0]"
  "cache_index (block_pool ex_small2) = [16 \<mapsto> 0, 32 \<mapsto> 1]"
  "content_hash (block_pool ex_small2) 1 = Some (ex_chain ! 1)"
  "evictions (prefix_cache_stats ex_small2) = 0"
  "map_option total_evictions (cache_telemetry ex_small2) = Some 0"
  by (simp_all add: ex_small2_def ex_small1_def ex_small0_def free_def ex_chain_def
      CacheTelemetry_init_def reset_def ex_eval)

lemma ex_small_call:
  "fst (allocate_slots ex_small2 (ex_request ''c'' 8) 8 None) = Inr (Some [1])"
  "cache_index (block_pool (snd (allocate_slots ex_small2 (ex_request ''c'' 8) 8 None)))
     = [16 \<mapsto> 0]"
  "content_hash (block_pool (snd (allocate_slots ex_small2 (ex_request ''c'' 8) 8 None))) 1
     = None"
  by (simp_all add: ex_small2_def ex_small1_def ex_small0_def free_def ex_chain_def
      CacheTelemetry_init_def reset_def ex_eval)

lemma ex_logprobs_call:
  "fst (get_computed_blocks ex_manager2 ex_logprobs_request) = Inr ([], 0)"
  "fst (get_computed_blocks ex_manager2 (ex_request ''b'' 32)) = Inr ([0], 16)"
  by (simp_all add: ex_manager2_eq ex_manager1_eq ex_manager0_def ex_logprobs_request_def
      get_computed_blocks_def match_block_hashes_def request_num_tokens_def ex_chain_eq
      ex_chain_def new_manager_def ex_request_fields lookup_list_def Let_def
      FullAttentionManager_def)

lemma allocate_slots_ValueError_only_for_zero:
  "n \<noteq> 0 \<Longrightarrow> fst (allocate_slots m r n arg) \<noteq> Inl ValueError"
proof (cases "block_size m = 0")
  case True
  assume "n \<noteq> 0"
  then show ?thesis using True by (simp add: allocate_slots_def Let_def)
next
  case False
  assume nz: "n \<noteq> 0"
  let ?ncb = "new_computed_list arg"
  have pull: "fst (pull_new_blocks (pin_computed m r ?ncb) r (blocks_needed m r n ?ncb))
                \<noteq> Inl ValueError"
    by (simp add: pull_new_blocks_unfold get_new_blocks_def Let_def
        split: sum.split prod.split)
  show ?thesis
    unfolding allocate_slots_unfold[OF nz False] Let_def
    using pull by (auto split: prod.split sum.split)
qed

lemma ex_window_release:
  "release_skipped ex_window_manager ex_window_request
     = ex_window_manager
          \<lparr>req_to_blocks := [''a'' \<mapsto> [1]],
           block_pool :=
             \<lparr>ref_cnt = (\<lambda>_. 0)(1 := 1, 0 := 0), content_hash = (\<lambda>_. None),
              evictable_queue = [2, 3, 0], cache_index = Map.empty\<rparr>\<rparr>"
  by (simp add: release_skipped_def ex_window_manager_def ex_window_policy_def
      ex_window_request_def ex_eval)

lemma ex_manager2_blocks:
  "req_to_blocks ex_manager2 ''a'' = Some [0, 1]"
  "evictable_queue (block_pool ex_manager2) = [2, 3, 4, 5, 6, 7]"
  "ref_cnt (block_pool ex_manager2) = (\<lambda>_. 0)(0 := 1, 1 := 1)"
  by (simp_all add: ex_manager2_eq)

lemma ex_manager1_config:
  "max_num_blocks_per_req ex_manager1 = 4" "max_model_len ex_manager1 = 64"
  "block_size ex_manager1 = 16" "req_to_blocks ex_manager1 = Map.empty"
  "specialized_manager ex_manager1 = FullAttentionManager"
  by (simp_all add: ex_manager1_eq ex_manager0_def new_manager_def cdiv_def)

lemma ex_manager2_config:
  "max_num_blocks_per_req ex_manager2 = 4" "num_preallocate_blocks ex_manager2 = 0"
  by (simp_all add: ex_manager2_eq ex_manager1_eq ex_manager0_def new_manager_def cdiv_def)

lemma ex_grown_held:
  "lookup_list (req_to_blocks (release_skipped ex_manager2 ex_grown_request))
     (request_id ex_grown_request) = [0, 1]"
  "block_pool (release_skipped ex_manager2 ex_grown_request) = block_pool ex_manager2"
  "total_computed_tokens ex_manager2 ex_grown_request [] = 32"
  unfolding release_skipped_fields total_computed_tokens_def
  by (simp_all add: ex_manager2_fields ex_manager2_blocks FullAttentionManager_def
      ex_grown_request_def ex_request_fields lookup_list_def free_blocks_Nil)

lemma cache_block_cases:
  "cache_block p (b, h) = p
   \<or> (content_hash p b = None \<and> cache_index p (hash_value h) = None
      \<and> cache_block p (b, h)
          = p\<lparr>content_hash := (content_hash p)(b := Some h),
                cache_index := (cache_index p)(hash_value h \<mapsto> b)\<rparr>)"
  by (simp add: cache_block_def)

lemma cache_block_keeps_hash:
  "content_hash p c \<noteq> None \<Longrightarrow> content_hash (cache_block p bh) c \<noteq> None"
  by (cases bh) (auto simp: cache_block_def)

lemma cache_block_keeps_index:
  "cache_index p hv \<noteq> None \<Longrightarrow> cache_index (cache_block p bh) hv \<noteq> None"
  by (cases bh) (auto simp: cache_block_def)

lemma cache_block_registers:
  "content_hash (cache_block p (b, h)) b \<noteq> None
   \<or> cache_index (cache_block p (b, h)) (hash_value h) \<noteq> None"
  by (auto simp: cache_block_def)

lemma foldl_cache_block_keeps_hash:
  "content_hash p c \<noteq> None \<Longrightarrow> content_hash (foldl cache_block p bhs) c \<noteq> None"
proof (induction bhs arbitrary: p)
  case Nil
  then show ?case by simp
next
  case (Cons bh bhs)
  have "content_hash (cache_block p bh) c \<noteq> None"
    using Cons.prems by (rule cache_block_keeps_hash)
  then show ?case using Cons.IH[of "cache_block p bh"] by simp
qed

lemma foldl_cache_block_keeps_index:
  "cache_index p hv \<noteq> None \<Longrightarrow> cache_index (foldl cache_block p bhs) hv \<noteq> None"
proof (induction bhs arbitrary: p)
  case Nil
  then show ?case by simp
next
  case (Cons bh bhs)
  have "cache_index (cache_block p bh) hv \<noteq> None"
    using Cons.prems by (rule cache_block_keeps_index)
  then show ?case using Cons.IH[of "cache_block p bh"] by simp
qed

lemma foldl_cache_block_registers:
  "(b, h) \<in> set bhs \<Longrightarrow>
   content_hash (foldl cache_block p bhs) b \<noteq> None
   \<or> cache_index (foldl cache_block p bhs) (hash_value h) \<noteq> None"
proof (induction bhs arbitrary: p)
  case Nil
  then show ?case by simp
next
  case (Cons bh bhs)
  show ?case
  proof (cases "bh = (b, h)")
    case True
    show ?thesis
      using cache_block_registers[of p b h]
        foldl_cache_block_keeps_hash[of "cache_block p (b, h)" b bhs]
        foldl_cache_block_keeps_index[of "cache_block p (b, h)" "hash_value h" bhs]
      by (auto simp: True)
  next
    case False
    then have "(b, h) \<in> set bhs" using Cons.prems by simp
    then show ?thesis using Cons.IH[of "cache_block p bh"] by simp
  qed
qed

lemma cache_block_index:
  "cache_index (cache_block p bh) hv = Some c \<Longrightarrow>
   cache_index p hv = Some c \<or> c = fst bh"
  by (cases bh) (auto simp: cache_block_def split: if_splits)

lemma foldl_cache_block_index:
  "cache_index (foldl cache_block p bhs) hv = Some c \<Longrightarrow>
   cache_index p hv = Some c \<or> c \<in> fst ` set bhs"
proof (induction bhs arbitrary: p)
  case Nil
  then show ?case by simp
next
  case (Cons bh bhs)
  from Cons.IH[of "cache_block p bh"] Cons.prems
  have "cache_index (cache_block p bh) hv = Some c \<or> c \<in> fst ` set bhs" by simp
  then show ?case using cache_block_index[of p bh hv c] by auto
qed

lemma range_of_zip:
  "fst ` set (drop lo (take hi (zip xs ys))) \<subseteq> set (drop lo (take hi xs))"
  by (auto simp: take_zip drop_zip dest: set_zip_leftD)

lemma cache_full_blocks_index:
  assumes "cache_index (cache_full_blocks p r blocks hs lo hi bsz f) hv = Some c"
  shows "cache_index p hv = Some c \<or> c \<in> set (drop (nat lo) (take (nat hi) blocks))"
  using foldl_cache_block_index[OF assms[unfolded cache_full_blocks_def Let_def]]
    range_of_zip by fast

lemma nth_in_range:
  assumes "lo \<le> i" and "i < hi" and "i < length zs"
  shows "zs ! i \<in> set (drop lo (take hi zs))"
proof -
  have "i - lo < length (drop lo (take hi zs))" using assms by simp
  moreover have "drop lo (take hi zs) ! (i - lo) = zs ! i" using assms by simp
  ultimately show ?thesis by (metis nth_mem)
qed

lemma cache_full_blocks_registers:
  fixes hs :: "BlockHashType list" and f :: hash_fn and bsz :: int and r :: Request
  defines "chain \<equiv> hs @ drop (length hs) (hash_request_tokens f bsz r)"
  assumes "nat lo \<le> i" and "i < nat hi" and "i < length blocks" and "i < length chain"
  shows "content_hash (cache_full_blocks p r blocks hs lo hi bsz f) (blocks ! i) \<noteq> None
       \<or> cache_index (cache_full_blocks p r blocks hs lo hi bsz f) (hash_value (chain ! i))
            \<noteq> None"
proof -
  have "zip blocks chain ! i \<in> set (drop (nat lo) (take (nat hi) (zip blocks chain)))"
    using assms(2-5) by (intro nth_in_range) simp_all
  then have "(blocks ! i, chain ! i) \<in> set (drop (nat lo) (take (nat hi) (zip blocks chain)))"
    using assms(4,5) by simp
  then show ?thesis
    unfolding cache_full_blocks_def Let_def chain_def[symmetric]
    by (rule foldl_cache_block_registers)
qed

lemma foldl_hand_out_content_hash:
  "content_hash p c = None \<or> c \<in> set bl \<Longrightarrow> content_hash (foldl hand_out p bl) c = None"
proof (induction bl arbitrary: p)
  case Nil
  then show ?case by simp
next
  case (Cons b bl)
  have "content_hash (hand_out p b) c = None \<or> c \<in> set bl"
    using Cons.prems by (auto simp: hand_out_def)
  then show ?case using Cons.IH[of "hand_out p b"] by simp
qed

lemma get_new_blocks_content_hash:
  assumes "get_new_blocks p n = Inr (new_blocks, p')" and "c \<in> set new_blocks"
  shows "content_hash p' c = None"
  using assms foldl_hand_out_content_hash[of p c new_blocks]
  by (auto simp: get_new_blocks_def Let_def split: if_splits)

lemma pull_new_blocks_content_hash:
  assumes "pull_new_blocks m r k = (Inr new_blocks, m3)" and "c \<in> set new_blocks"
  shows "content_hash (block_pool m3) c = None"
proof (cases "k \<le> 0")
  case True
  then show ?thesis using assms by (simp add: pull_new_blocks_unfold)
next
  case False
  then show ?thesis
    using assms get_new_blocks_content_hash[of "block_pool m" "num_pulled m r k"]
    by (auto simp: pull_new_blocks_unfold split: if_splits sum.splits prod.splits)
qed

lemma ex_spec_call_blocks:
  "req_to_blocks (snd (allocate_slots ex_manager1 ex_spec_request 32 (Some []))) ''a''
     = Some [0, 1]"
  by (simp add: ex_manager1_eq ex_manager0_def ex_spec_request_def ex_chain_def ex_eval)

section \<open>The claims\<close>

subsection \<open>C1: the last hash of an exactly divisible prompt is dropped and restored\<close>

text \<open>
  C1. Let the prompt of a request be non-empty with a length that is an exact multiple of
  the (positive) block size, let caching be enabled, and let the chain stored for the
  request be absent, empty or the chain of the request's tokens. Provided the telemetry
  object exists when statistics are logged and the policy returns no more blocks than it
  is given hashes, \<open>get_computed_blocks\<close> returns; the blocks it reports are fewer than
  the hashes of the chain, their number times the block size is the reported number of
  computed tokens, without prompt log-probabilities they are the policy's match of the
  chain without its last hash, and the chain stored for the request after the call is
  the whole chain again.
\<close>

theorem get_computed_blocks_exact_multiple:
  fixes m :: KVCacheManager and r :: Request
  defines "chain \<equiv> hash_request_tokens (caching_hash_fn m) (block_size m) r"
  assumes caching: "enable_caching m"
    and bs: "0 < block_size m"
    and toks: "all_token_ids r \<noteq> []"
    and multiple: "int (length (all_token_ids r)) mod block_size m = 0"
    and stored: "req_to_block_hashes m (request_id r) \<in> {None, Some [], Some chain}"
    and telemetry: "log_stats m \<longrightarrow> cache_telemetry m \<noteq> None"
    and policy: "length (find_longest_cache_hit (specialized_manager m) (block_pool m)
                   (butlast chain)) \<le> length (butlast chain)"
  shows "\<exists>blocks m'.
           get_computed_blocks m r = (Inr (blocks, int (length blocks) * block_size m), m')
         \<and> length blocks \<le> length chain - 1
         \<and> (prompt_logprobs r = None \<longrightarrow>
              blocks = find_longest_cache_hit (specialized_manager m) (block_pool m)
                         (butlast chain))
         \<and> req_to_block_hashes m' (request_id r) = Some chain"
proof -
  let ?rid = "request_id r"
  let ?st = "prefix_cache_stats m"
  let ?m1 = "m\<lparr>req_to_block_hashes := (req_to_block_hashes m)(?rid \<mapsto> chain),
               prefix_cache_stats := ?st\<lparr>requests := requests ?st + 1\<rparr>\<rparr>"
  have len: "length chain = length (all_token_ids r) div nat (block_size m)"
    unfolding chain_def using bs by (rule length_hash_request_tokens)
  have ne: "chain \<noteq> []"
    using exact_multiple_chain(2)[OF bs toks multiple] len by auto
  have full: "int (length chain) * block_size m = request_num_tokens r"
    using exact_multiple_chain(1)[OF bs toks multiple] len by (simp add: request_num_tokens_def)
  have used: "(if lookup_list (req_to_block_hashes m) ?rid = [] then chain
               else lookup_list (req_to_block_hashes m) ?rid) = chain"
    using stored by (auto simp: lookup_list_def)
  show ?thesis
  proof (cases "prompt_logprobs r")
    case (Some lp)
    have "get_computed_blocks m r = (Inr ([], 0), ?m1)"
      using caching Some
      by (simp add: get_computed_blocks_def Let_def used[unfolded chain_def] chain_def)
    then show ?thesis using Some by simp
  next
    case None
    let ?m2 = "?m1\<lparr>req_to_block_hashes := (req_to_block_hashes ?m1)(?rid \<mapsto> butlast chain)\<rparr>"
    have call: "get_computed_blocks m r =
                  match_block_hashes ?m2 r (butlast chain) (Some (last chain))"
      using caching None ne[unfolded chain_def] full[unfolded chain_def]
      by (simp add: get_computed_blocks_def Let_def used[unfolded chain_def] chain_def)
    have tel: "log_stats ?m2 \<longrightarrow> cache_telemetry ?m2 \<noteq> None" using telemetry by simp
    obtain m' where m': "match_block_hashes ?m2 r (butlast chain) (Some (last chain)) =
        (Inr (find_longest_cache_hit (specialized_manager ?m2) (block_pool ?m2) (butlast chain),
              int (length (find_longest_cache_hit (specialized_manager ?m2) (block_pool ?m2)
                     (butlast chain))) * block_size ?m2), m')"
      and rest: "req_to_block_hashes m' ?rid = Some (butlast chain @ [last chain])"
      using match_block_hashes_returns[OF tel, of r "butlast chain" "last chain"] by blast
    have "butlast chain @ [last chain] = chain" using ne by simp
    then show ?thesis using call m' rest policy None by simp
  qed
qed

text \<open>The spec's example: with block size 16, the 32 tokens of request \<open>b\<close> are fully
  cached by the identical request \<open>a\<close>, and \<open>get_computed_blocks\<close> reports one block
  and 16 computed tokens.\<close>

theorem get_computed_blocks_exact_multiple_witness:
  "enable_caching ex_manager2 \<and> 0 < block_size ex_manager2
   \<and> all_token_ids (ex_request ''b'' 32) \<noteq> []
   \<and> int (length (all_token_ids (ex_request ''b'' 32))) mod block_size ex_manager2 = 0
   \<and> req_to_block_hashes ex_manager2 ''b'' = None
   \<and> \<not> log_stats ex_manager2
   \<and> hash_request_tokens (caching_hash_fn ex_manager2) (block_size ex_manager2)
        (ex_request ''b'' 32) = ex_chain
   \<and> length ex_chain = 2
   \<and> fst (get_computed_blocks ex_manager2 (ex_request ''b'' 32)) = Inr ([0], 16)
   \<and> req_to_block_hashes (snd (get_computed_blocks ex_manager2 (ex_request ''b'' 32))) ''b''
       = Some ex_chain"
proof -
  let ?r = "ex_request ''b'' 32"
  have chain: "hash_request_tokens (caching_hash_fn ex_manager2) (block_size ex_manager2) ?r
                 = ex_chain"
    by (simp add: ex_manager2_fields ex_chain_eq)
  have hit: "find_longest_cache_hit (specialized_manager ex_manager2) (block_pool ex_manager2)
               (butlast ex_chain) = [0]"
    by (simp add: ex_manager2_fields FullAttentionManager_def ex_chain_def)
  have h1: "enable_caching ex_manager2" and h2: "0 < block_size ex_manager2"
    and h3: "all_token_ids ?r \<noteq> []"
    and h4: "int (length (all_token_ids ?r)) mod block_size ex_manager2 = 0"
    and h5: "req_to_block_hashes ex_manager2 (request_id ?r) \<in> {None, Some [],
              Some (hash_request_tokens (caching_hash_fn ex_manager2) (block_size ex_manager2) ?r)}"
    and h6: "log_stats ex_manager2 \<longrightarrow> cache_telemetry ex_manager2 \<noteq> None"
    by (simp_all add: ex_manager2_fields ex_request_fields)
  have h7: "length (find_longest_cache_hit (specialized_manager ex_manager2)
              (block_pool ex_manager2)
              (butlast (hash_request_tokens (caching_hash_fn ex_manager2)
                 (block_size ex_manager2) ?r)))
            \<le> length (butlast (hash_request_tokens (caching_hash_fn ex_manager2)
                 (block_size ex_manager2) ?r))"
    unfolding chain hit by (simp add: ex_chain_def)
  from get_computed_blocks_exact_multiple[OF h1 h2 h3 h4 h5 h6 h7]
  obtain blocks m' where
    res: "get_computed_blocks ex_manager2 ?r
            = (Inr (blocks, int (length blocks) * block_size ex_manager2), m')"
    and blocks: "blocks = find_longest_cache_hit (specialized_manager ex_manager2)
                   (block_pool ex_manager2) (butlast ex_chain)"
    and stored: "req_to_block_hashes m' (request_id ?r) = Some ex_chain"
    unfolding chain by (auto simp: ex_request_fields)
  show ?thesis
    using res blocks stored hit chain h1 h2 h3 h4
    by (simp add: ex_manager2_fields ex_request_fields ex_chain_def)
qed

subsection \<open>C2: allocate_slots with a zero or negative number of tokens\<close>

text \<open>
  C2. \<open>allocate_slots\<close> tests \<open>num_tokens == 0\<close> only. On a manager without caching,
  the call with \<open>num_tokens = 0\<close> raises \<open>ValueError\<close> and leaves the manager as it was,
  while the call with \<open>num_tokens = -1\<close> raises nothing: it returns the empty list of new
  blocks and stores an empty block list for the request. In general the call raises
  \<open>ValueError\<close> for \<open>num_tokens = 0\<close> with the manager unchanged (lemma
  \<open>allocate_slots_zero\<close>) and for no other value (lemma
  \<open>allocate_slots_ValueError_only_for_zero\<close>).
\<close>

theorem allocate_slots_negative_num_tokens:
  "allocate_slots ex_manager_nocache (ex_request ''a'' 32) 0 None
     = (Inl ValueError, ex_manager_nocache)
   \<and> allocate_slots ex_manager_nocache (ex_request ''a'' 32) (- 1) None
     = (Inr (Some []), ex_manager_nocache\<lparr>req_to_blocks := [''a'' \<mapsto> []]\<rparr>)"
  by (simp add: ex_manager_nocache_def ex_eval)

subsection \<open>C3: the cannot-allocate result\<close>

text \<open>
  C3. When \<open>num_tokens\<close> and the block size are not zero and the number of new blocks
  needed exceeds the pool's free blocks (counted after the skipped blocks were released)
  minus the number of new computed blocks with reference count 0, \<open>allocate_slots\<close>
  returns \<open>None\<close> and the manager is the one after the release of the skipped blocks:
  the request's list is what the policy left of it, the pool is the old pool with the
  removed blocks freed, and nothing else has changed.
\<close>

theorem allocate_slots_cannot_allocate:
  assumes nz: "n \<noteq> 0" and bs: "block_size m \<noteq> 0"
    and short: "blocks_needed m r n (new_computed_list arg)
                > get_num_free_blocks (block_pool (release_skipped m r))
                  - int (length (filter (\<lambda>b. ref_cnt (block_pool (release_skipped m r)) b = 0)
                                   (new_computed_list arg)))"
  shows "allocate_slots m r n arg = (Inr None, release_skipped m r)
       \<and> lookup_list (req_to_blocks (release_skipped m r)) (request_id r)
           = fst (remove_skipped_blocks (specialized_manager m)
                    (lookup_list (req_to_blocks m) (request_id r)) (num_computed_tokens r))
       \<and> block_pool (release_skipped m r)
           = free_blocks (block_pool m)
               (snd (remove_skipped_blocks (specialized_manager m)
                       (lookup_list (req_to_blocks m) (request_id r))
                       (num_computed_tokens r)))"
  using short
  by (simp add: allocate_slots_unfold[OF nz bs] Let_def release_skipped_fields)

text \<open>
  A request holds the blocks 0 and 1, the policy skips block 0, and 4 more blocks are
  needed where 3 are free after the release: the call returns \<open>None\<close>, the request keeps
  block 1 and block 0 is at the tail of the evictable queue.
\<close>

theorem allocate_slots_cannot_allocate_witness:
  "(48 :: int) \<noteq> 0 \<and> block_size ex_window_manager \<noteq> 0
   \<and> req_to_blocks ex_window_manager ''a'' = Some [0, 1]
   \<and> evictable_queue (block_pool ex_window_manager) = [2, 3]
   \<and> blocks_needed ex_window_manager ex_window_request 48 (new_computed_list None) = 4
   \<and> get_num_free_blocks (block_pool (release_skipped ex_window_manager ex_window_request))
       = 3
   \<and> fst (allocate_slots ex_window_manager ex_window_request 48 None) = Inr None
   \<and> req_to_blocks (snd (allocate_slots ex_window_manager ex_window_request 48 None)) ''a''
       = Some [1]
   \<and> evictable_queue
        (block_pool (snd (allocate_slots ex_window_manager ex_window_request 48 None)))
       = [2, 3, 0]"
proof -
  have nz: "(48 :: int) \<noteq> 0" by simp
  have bs: "block_size ex_window_manager \<noteq> 0"
    by (simp add: ex_window_manager_def new_manager_def)
  have before: "req_to_blocks ex_window_manager ''a'' = Some [0, 1]"
    "evictable_queue (block_pool ex_window_manager) = [2, 3]"
    by (simp_all add: ex_window_manager_def)
  have need: "blocks_needed ex_window_manager ex_window_request 48 (new_computed_list None) = 4"
    by (simp add: blocks_needed_def total_computed_tokens_def new_computed_list_def
        ex_window_release lookup_list_def cdiv_def)
      (simp add: ex_window_manager_def ex_window_request_def new_manager_def ex_request_fields)
  have free: "get_num_free_blocks (block_pool (release_skipped ex_window_manager
                ex_window_request)) = 3"
    by (simp add: ex_window_release get_num_free_blocks_def)
  have short: "blocks_needed ex_window_manager ex_window_request 48 (new_computed_list None)
      > get_num_free_blocks (block_pool (release_skipped ex_window_manager ex_window_request))
        - int (length (filter (\<lambda>b. ref_cnt (block_pool (release_skipped ex_window_manager
                 ex_window_request)) b = 0) (new_computed_list None)))"
    unfolding need free by (simp add: new_computed_list_def)
  note res = allocate_slots_cannot_allocate[OF nz bs short, THEN conjunct1]
  show ?thesis
    unfolding res using nz bs before need free
    by (simp add: ex_window_release)
qed

subsection \<open>C4: the result of get_computed_blocks\<close>

text \<open>
  C4. If caching is disabled or the request asks for prompt log-probabilities,
  \<open>get_computed_blocks\<close> returns the empty list and 0; and whenever it returns a list of
  blocks and a number of computed tokens, that number is the length of the list times
  the block size.
\<close>

theorem get_computed_blocks_result:
  "((\<not> enable_caching m \<or> prompt_logprobs r \<noteq> None) \<longrightarrow>
      fst (get_computed_blocks m r) = Inr ([], 0))
   \<and> (\<forall>blocks n. fst (get_computed_blocks m r) = Inr (blocks, n) \<longrightarrow>
         n = int (length blocks) * block_size m)"
  by (auto simp: get_computed_blocks_def match_block_hashes_def Let_def
      split: if_splits option.splits)

text \<open>
  A request with prompt log-probabilities on a manager with a warm cache, a request on a
  manager without caching, and the request \<open>b\<close> whose one matched block gives 16 tokens.
\<close>

theorem get_computed_blocks_result_witness:
  "prompt_logprobs ex_logprobs_request \<noteq> None
   \<and> fst (get_computed_blocks ex_manager2 ex_logprobs_request) = Inr ([], 0)
   \<and> \<not> enable_caching ex_manager_nocache
   \<and> fst (get_computed_blocks ex_manager_nocache (ex_request ''b'' 32)) = Inr ([], 0)
   \<and> fst (get_computed_blocks ex_manager2 (ex_request ''b'' 32)) = Inr ([0], 16)
   \<and> (16 :: int) = int (length [0 :: nat]) * block_size ex_manager2"
proof -
  have lp: "prompt_logprobs ex_logprobs_request \<noteq> None"
    by (simp add: ex_logprobs_request_def)
  have off: "\<not> enable_caching ex_manager_nocache"
    by (simp add: ex_manager_nocache_def new_manager_def)
  have a: "fst (get_computed_blocks ex_manager2 ex_logprobs_request) = Inr ([], 0)"
    using get_computed_blocks_result[of ex_manager2 ex_logprobs_request] lp by blast
  have b: "fst (get_computed_blocks ex_manager_nocache (ex_request ''b'' 32)) = Inr ([], 0)"
    using get_computed_blocks_result[of ex_manager_nocache "ex_request ''b'' 32"] off by blast
  have c: "(16 :: int) = int (length [0 :: nat]) * block_size ex_manager2"
    using get_computed_blocks_result[of ex_manager2 "ex_request ''b'' 32"]
      ex_logprobs_call(2) by blast
  show ?thesis using lp off a b c ex_logprobs_call(2) by blast
qed

subsection \<open>C5: the blocks registered in the cache index\<close>

text \<open>
  C5. After an \<open>allocate_slots\<close> call with caching enabled that returns a list of blocks,
  the count recorded for the request is the floor of (computed tokens + new tokens -
  pending speculative tokens) / block size. The new blocks are the ones \<open>pull_new_blocks\<close>
  returned, and the pool is the result of \<open>cache_full_blocks\<close> on the pool as the pull
  left it, for the request's block list from the count recorded before (by default the
  number of new computed blocks) up to the new count. Hence every block outside this
  range of the list has the content hash the pull left it with; a new block outside the
  range has no content hash; a block that the cache index maps a hash to either was
  mapped so after the pull or lies in the range; and for every position of the range,
  within the list and the chain, the block there has a content hash or the hash of that
  position is resident in the cache index.
\<close>

theorem allocate_slots_caches_full_blocks:
  fixes m :: KVCacheManager and r :: Request and arg :: "block list option" and n :: int
  defines "ncb \<equiv> new_computed_list arg"
  defines "num_full \<equiv>
    (total_computed_tokens m r ncb + n - int (length (spec_token_ids r))) div block_size m"
  defines "already \<equiv>
    (case num_cached_block m (request_id r) of None \<Rightarrow> int (length ncb) | Some c \<Rightarrow> c)"
  defines "pulled \<equiv> pull_new_blocks (pin_computed m r ncb) r (blocks_needed m r n ncb)"
  defines "hashes \<equiv> lookup_list (req_to_block_hashes m) (request_id r)"
  defines "chain \<equiv>
    hashes @ drop (length hashes)
               (hash_request_tokens (caching_hash_fn m) (block_size m) r)"
  assumes ok: "allocate_slots m r n arg = (Inr (Some new_blocks), m')"
    and caching: "enable_caching m"
  shows "num_cached_block m' (request_id r) = Some num_full
       \<and> fst pulled = Inr new_blocks
       \<and> lookup_list (req_to_blocks m') (request_id r)
           = lookup_list (req_to_blocks (snd pulled)) (request_id r)
       \<and> block_pool m'
           = cache_full_blocks (block_pool (snd pulled)) r
               (lookup_list (req_to_blocks m') (request_id r)) hashes
               already num_full (block_size m) (caching_hash_fn m)
       \<and> (\<forall>b. b \<notin> set (drop (nat already) (take (nat num_full)
                              (lookup_list (req_to_blocks m') (request_id r))))
              \<longrightarrow> content_hash (block_pool m') b = content_hash (block_pool (snd pulled)) b)
       \<and> (\<forall>b. b \<in> set new_blocks
                \<and> b \<notin> set (drop (nat already) (take (nat num_full)
                                (lookup_list (req_to_blocks m') (request_id r))))
              \<longrightarrow> content_hash (block_pool m') b = None)
       \<and> (\<forall>hv b. cache_index (block_pool m') hv = Some b
              \<longrightarrow> cache_index (block_pool (snd pulled)) hv = Some b
                  \<or> b \<in> set (drop (nat already) (take (nat num_full)
                                (lookup_list (req_to_blocks m') (request_id r)))))
       \<and> (\<forall>i. nat already \<le> i \<and> i < nat num_full
                \<and> i < length (lookup_list (req_to_blocks m') (request_id r))
                \<and> i < length chain
              \<longrightarrow> content_hash (block_pool m')
                     (lookup_list (req_to_blocks m') (request_id r) ! i) \<noteq> None
                  \<or> cache_index (block_pool m') (hash_value (chain ! i)) \<noteq> None)"
proof -
  obtain m3 where pull: "pulled = (Inr new_blocks, m3)"
    and m': "m' = cache_new_full_blocks m3 r (total_computed_tokens m r ncb) n ncb"
    using allocate_slots_success[OF ok] unfolding ncb_def pulled_def by blast
  note f3 = pull_new_blocks_result[OF pull[unfolded pulled_def], unfolded pin_computed_fields]
  have c3: "enable_caching m3" using f3(3) caching by simp
  have snd: "snd pulled = m3" and fst: "fst pulled = Inr new_blocks"
    using pull by simp_all
  let ?blocks = "lookup_list (req_to_blocks m') (request_id r)"
  let ?range = "drop (nat already) (take (nat num_full) ?blocks)"
  have count: "num_cached_block m' (request_id r) = Some num_full"
    unfolding m' using c3 f3(4)
    by (simp add: cache_new_full_blocks_def Let_def num_full_def)
  have blocks: "req_to_blocks m' = req_to_blocks m3"
    unfolding m' by (simp add: cache_new_full_blocks_fields)
  have pool: "block_pool m'
      = cache_full_blocks (block_pool m3) r ?blocks hashes
          already num_full (block_size m) (caching_hash_fn m)"
    unfolding blocks unfolding m' using c3 f3(4,5,6,7)
    by (simp add: cache_new_full_blocks_def Let_def num_full_def already_def hashes_def)
  have outside: "content_hash (block_pool m') b = content_hash (block_pool m3) b"
    if "b \<notin> set ?range" for b
    unfolding pool using that by (rule cache_full_blocks_content_hash)
  have fresh: "content_hash (block_pool m') b = None"
    if "b \<in> set new_blocks \<and> b \<notin> set ?range" for b
    using outside[of b] that
      pull_new_blocks_content_hash[OF pull[unfolded pulled_def], of b] by simp
  have index: "cache_index (block_pool (snd pulled)) hv = Some b \<or> b \<in> set ?range"
    if "cache_index (block_pool m') hv = Some b" for hv b
    unfolding snd using cache_full_blocks_index[OF that[unfolded pool]] .
  have registered: "content_hash (block_pool m') (?blocks ! i) \<noteq> None
                  \<or> cache_index (block_pool m') (hash_value (chain ! i)) \<noteq> None"
    if "nat already \<le> i \<and> i < nat num_full \<and> i < length ?blocks \<and> i < length chain" for i
  proof -
    have "content_hash (cache_full_blocks (block_pool m3) r ?blocks hashes
              already num_full (block_size m) (caching_hash_fn m)) (?blocks ! i) \<noteq> None
          \<or> cache_index (cache_full_blocks (block_pool m3) r ?blocks hashes
              already num_full (block_size m) (caching_hash_fn m))
               (hash_value ((hashes @ drop (length hashes)
                  (hash_request_tokens (caching_hash_fn m) (block_size m) r)) ! i)) \<noteq> None"
      using that by (intro cache_full_blocks_registers) (simp_all add: chain_def)
    then show ?thesis unfolding pool[symmetric] chain_def .
  qed
  show ?thesis
    unfolding snd
    using count fst blocks pool outside fresh index[unfolded snd] registered
    by (intro conjI allI impI) simp_all
qed

text \<open>
  With one pending speculative token, 32 new tokens fill one block only: the recorded
  count is 1, the first block is in the cache index and the second, a new block outside
  the range, has no content hash.
\<close>

theorem allocate_slots_caches_full_blocks_witness:
  "enable_caching ex_manager1
   \<and> spec_token_ids ex_spec_request = [7]
   \<and> fst (allocate_slots ex_manager1 ex_spec_request 32 (Some [])) = Inr (Some [0, 1])
   \<and> (total_computed_tokens ex_manager1 ex_spec_request (new_computed_list (Some [])) + 32
         - int (length (spec_token_ids ex_spec_request))) div block_size ex_manager1 = 1
   \<and> num_cached_block (snd (allocate_slots ex_manager1 ex_spec_request 32 (Some []))) ''a''
       = Some 1
   \<and> lookup_list
        (req_to_blocks (snd (allocate_slots ex_manager1 ex_spec_request 32 (Some []))))
        ''a'' = [0, 1]
   \<and> cache_index (block_pool (snd (allocate_slots ex_manager1 ex_spec_request 32 (Some []))))
       = [16 \<mapsto> 0]
   \<and> content_hash (block_pool (snd (allocate_slots ex_manager1 ex_spec_request 32 (Some []))))
        1 = None"
proof -
  let ?call = "allocate_slots ex_manager1 ex_spec_request 32 (Some [])"
  have caching: "enable_caching ex_manager1"
    by (simp add: ex_manager1_eq ex_manager0_def new_manager_def)
  have ok: "?call = (Inr (Some [0, 1]), snd ?call)"
    using ex_spec_call(1) by (simp add: prod_eq_iff)
  have full: "(total_computed_tokens ex_manager1 ex_spec_request (new_computed_list (Some []))
                 + 32 - int (length (spec_token_ids ex_spec_request)))
                div block_size ex_manager1 = 1"
    by (simp add: total_computed_tokens_def new_computed_list_def ex_spec_request_def
        ex_request_fields ex_manager1_eq ex_manager0_def new_manager_def)
  have rid: "request_id ex_spec_request = ''a''"
    by (simp add: ex_spec_request_def ex_request_fields)
  have already: "(case num_cached_block ex_manager1 ''a'' of
                    None \<Rightarrow> int (length (new_computed_list (Some []))) | Some c \<Rightarrow> c) = 0"
    by (simp add: ex_manager1_eq ex_manager0_def new_manager_def new_computed_list_def)
  note facts = allocate_slots_caches_full_blocks[OF ok caching, unfolded full rid already]
  have count: "num_cached_block (snd ?call) ''a'' = Some 1"
    using facts[THEN conjunct1] .
  have list: "lookup_list (req_to_blocks (snd ?call)) ''a'' = [0, 1]"
    using ex_spec_call_blocks by (simp add: lookup_list_def)
  have "\<forall>b. b \<in> set [0, 1 :: nat]
           \<and> b \<notin> set (drop (nat 0) (take (nat 1) (lookup_list (req_to_blocks (snd ?call)) ''a'')))
          \<longrightarrow> content_hash (block_pool (snd ?call)) b = None"
    using facts[THEN conjunct2, THEN conjunct2, THEN conjunct2, THEN conjunct2, THEN conjunct2,
        THEN conjunct1] .
  then have speculative: "content_hash (block_pool (snd ?call)) 1 = None"
    unfolding list by simp
  show ?thesis
    using caching ex_spec_call(1,3) full count list speculative
    by (simp add: ex_spec_request_def)
qed

subsection \<open>C6: free releases the blocks tail first\<close>

text \<open>
  C6. For a request with a non-empty block list, \<open>free\<close> removes the list from the
  manager and passes the blocks to \<open>free_blocks\<close> in reverse order when caching is
  enabled and in their original order otherwise; when the blocks are distinct and each
  has reference count 1, they are appended to the evictable queue in that order.
\<close>

theorem free_releases_tail_first:
  assumes held: "req_to_blocks m (request_id r) = Some blocks" and ne: "blocks \<noteq> []"
  shows "req_to_blocks (free m r) (request_id r) = None
       \<and> block_pool (free m r)
           = free_blocks (block_pool m) (if enable_caching m then rev blocks else blocks)
       \<and> (distinct blocks \<and> (\<forall>b \<in> set blocks. ref_cnt (block_pool m) b = 1) \<longrightarrow>
            evictable_queue (block_pool (free m r))
              = evictable_queue (block_pool m)
                  @ (if enable_caching m then rev blocks else blocks))"
proof (intro conjI impI)
  show "req_to_blocks (free m r) (request_id r) = None"
    by (simp add: free_def Let_def)
  show pool: "block_pool (free m r)
           = free_blocks (block_pool m) (if enable_caching m then rev blocks else blocks)"
    using held by (simp add: free_def Let_def lookup_list_def)
  assume d: "distinct blocks \<and> (\<forall>b \<in> set blocks. ref_cnt (block_pool m) b = 1)"
  show "evictable_queue (block_pool (free m r))
              = evictable_queue (block_pool m)
                  @ (if enable_caching m then rev blocks else blocks)"
  proof (cases "enable_caching m")
    case True
    have "evictable_queue (free_blocks (block_pool m) (rev blocks))
            = evictable_queue (block_pool m) @ rev blocks"
      using d by (intro free_blocks_queue) simp_all
    then show ?thesis using pool True by simp
  next
    case False
    have "evictable_queue (free_blocks (block_pool m) blocks)
            = evictable_queue (block_pool m) @ blocks"
      using d by (intro free_blocks_queue) simp_all
    then show ?thesis using pool False by simp
  qed
qed

text \<open>
  Freeing the request \<open>a\<close> with the blocks 0 and 1 appends block 1, then block 0.
\<close>

theorem free_releases_tail_first_witness:
  "req_to_blocks ex_manager2 ''a'' = Some [0, 1]
   \<and> enable_caching ex_manager2
   \<and> evictable_queue (block_pool ex_manager2) = [2, 3, 4, 5, 6, 7]
   \<and> req_to_blocks (free ex_manager2 (ex_request ''a'' 32)) ''a'' = None
   \<and> block_pool (free ex_manager2 (ex_request ''a'' 32))
        = free_blocks (block_pool ex_manager2) [1, 0]
   \<and> evictable_queue (block_pool (free ex_manager2 (ex_request ''a'' 32)))
        = [2, 3, 4, 5, 6, 7, 1, 0]"
proof -
  have held: "req_to_blocks ex_manager2 (request_id (ex_request ''a'' 32)) = Some [0, 1]"
    by (simp add: ex_manager2_blocks ex_request_fields)
  have refs: "distinct [0, 1 :: nat]
              \<and> (\<forall>b \<in> set [0, 1]. ref_cnt (block_pool ex_manager2) b = 1)"
    by (simp add: ex_manager2_blocks)
  have ne: "[0, 1 :: nat] \<noteq> []" by simp
  note facts = free_releases_tail_first[OF held ne, simplified ex_request_fields]
  have gone: "req_to_blocks (free ex_manager2 (ex_request ''a'' 32)) ''a'' = None"
    using facts by simp
  have pool: "block_pool (free ex_manager2 (ex_request ''a'' 32))
                = free_blocks (block_pool ex_manager2) [1, 0]"
    using facts by (simp add: ex_manager2_fields)
  have "evictable_queue (block_pool (free ex_manager2 (ex_request ''a'' 32)))
          = evictable_queue (block_pool ex_manager2)
              @ (if enable_caching ex_manager2 then rev [0, 1] else [0, 1])"
    using facts[THEN conjunct2, THEN conjunct2] refs by (rule mp)
  then have queue: "evictable_queue (block_pool (free ex_manager2 (ex_request ''a'' 32)))
                 = [2, 3, 4, 5, 6, 7, 1, 0]"
    by (simp add: ex_manager2_fields ex_manager2_blocks)
  show ?thesis
    using gone pool queue by (simp add: ex_manager2_blocks ex_manager2_fields)
qed

subsection \<open>C7: free and free_block_hashes are idempotent\<close>

text \<open>
  C7. A second \<open>free\<close> for the same request leaves the manager as the first one left
  it; \<open>free\<close> for a request id with no block list and no recorded count changes
  nothing; \<open>free\<close> for a request whose block list is absent or empty releases no block
  and changes what no dictionary read with the default \<open>[]\<close> returns; \<open>free_block_hashes\<close> for a request with no stored chain changes nothing; and
  \<open>free_block_hashes\<close> after \<open>free\<close> only removes the stored chain. Neither operation
  has a failing branch.
\<close>

theorem free_is_idempotent:
  "free (free m r) r = free m r
   \<and> block_pool (free (free m r) r) = block_pool (free m r)
   \<and> (req_to_blocks m (request_id r) = None \<and> num_cached_block m (request_id r) = None \<longrightarrow>
        free m r = m)
   \<and> (lookup_list (req_to_blocks m) (request_id r) = [] \<longrightarrow>
        block_pool (free m r) = block_pool m
        \<and> (\<forall>rid. lookup_list (req_to_blocks (free m r)) rid
                   = lookup_list (req_to_blocks m) rid))
   \<and> (req_to_block_hashes m (request_id r) = None \<longrightarrow> free_block_hashes m r = m)
   \<and> free_block_hashes (free m r) r
        = (free m r)\<lparr>req_to_block_hashes := (req_to_block_hashes m)(request_id r := None)\<rparr>"
proof (intro conjI impI)
  show twice: "free (free m r) r = free m r"
    by (simp add: free_def Let_def lookup_list_def free_blocks_Nil)
  show "block_pool (free (free m r) r) = block_pool (free m r)"
    using twice by simp
  show "free m r = m"
    if "req_to_blocks m (request_id r) = None \<and> num_cached_block m (request_id r) = None"
    using that by (simp add: free_def Let_def lookup_list_def free_blocks_Nil fun_upd_idem)
  show "block_pool (free m r) = block_pool m"
    if "lookup_list (req_to_blocks m) (request_id r) = []"
    using that by (simp add: free_def Let_def free_blocks_Nil)
  show "\<forall>rid. lookup_list (req_to_blocks (free m r)) rid
                = lookup_list (req_to_blocks m) rid"
    if "lookup_list (req_to_blocks m) (request_id r) = []"
    using that by (auto simp: free_def Let_def lookup_list_def split: option.splits)
  show "free_block_hashes m r = m" if "req_to_block_hashes m (request_id r) = None"
    using that by (simp add: free_block_hashes_def fun_upd_idem)
  show "free_block_hashes (free m r) r
        = (free m r)\<lparr>req_to_block_hashes := (req_to_block_hashes m)(request_id r := None)\<rparr>"
    by (simp add: free_block_hashes_def free_def Let_def)
qed

text \<open>
  The request id \<open>zz\<close> is unknown to the example manager, and \<open>a\<close> holds two blocks.
\<close>

theorem free_is_idempotent_witness:
  "req_to_blocks ex_manager2 ''zz'' = None \<and> num_cached_block ex_manager2 ''zz'' = None
   \<and> req_to_block_hashes ex_manager2 ''zz'' = None
   \<and> lookup_list (req_to_blocks ex_manager2) ''zz'' = []
   \<and> block_pool (free ex_manager2 (ex_request ''zz'' 32)) = block_pool ex_manager2
   \<and> free ex_manager2 (ex_request ''zz'' 32) = ex_manager2
   \<and> free_block_hashes ex_manager2 (ex_request ''zz'' 32) = ex_manager2
   \<and> free (free ex_manager2 (ex_request ''a'' 32)) (ex_request ''a'' 32)
        = free ex_manager2 (ex_request ''a'' 32)"
  using free_is_idempotent[of ex_manager2 "ex_request ''zz'' 32"]
    free_is_idempotent[of ex_manager2 "ex_request ''a'' 32"]
  by (simp add: ex_request_fields ex_manager2_eq ex_manager1_eq ex_manager0_def new_manager_def
      lookup_list_def)

subsection \<open>C8: the length of a request's block list\<close>

text \<open>
  C8, as stated, fails: with a block size of 16 and a preallocation of 64 tokens, the
  first \<open>allocate_slots\<close> call for one token gives the request five blocks, where the
  ceiling of (computed tokens + new tokens) / block size is 1.
\<close>

theorem allocate_slots_block_list_length_counterexample:
  "fst (allocate_slots ex_manager_prealloc (ex_request ''a'' 1) 1 None)
     = Inr (Some [0, 1, 2, 3, 4])
   \<and> lookup_list
        (req_to_blocks (snd (allocate_slots ex_manager_prealloc (ex_request ''a'' 1) 1 None)))
        ''a'' = [0, 1, 2, 3, 4]
   \<and> cdiv (num_computed_tokens (ex_request ''a'' 1) + 1) (block_size ex_manager_prealloc) = 1
   \<and> int (length (lookup_list
        (req_to_blocks (snd (allocate_slots ex_manager_prealloc (ex_request ''a'' 1) 1 None)))
        ''a''))
       \<noteq> cdiv (num_computed_tokens (ex_request ''a'' 1) + 1) (block_size ex_manager_prealloc)"
  using ex_prealloc_call
  by (simp add: lookup_list_def ex_request_fields cdiv_def ex_manager_prealloc_def
      new_manager_def)

text \<open>
  C8, amended. Let the manager \<open>m\<close> be reached from \<open>m0\<close> by \<open>allocate_slots\<close> calls that
  each returned a list of blocks and whose new computed blocks fitted under the limit,
  where \<open>max_num_blocks_per_req\<close> of \<open>m0\<close> is the limit ceil(max_model_len / block_size)
  and no block list of \<open>m0\<close> is longer than the limit. After one more such call the
  request's list is the blocks it held, the new computed blocks and the new blocks; no
  block list of the manager is longer than the limit; the request's list is no longer
  than the larger of what it had and the required number plus the preallocated blocks;
  and, when \<open>num_preallocate_blocks\<close> is not negative, no block has a negative
  reference count once the skipped blocks are released, and the required number
  ceil((computed tokens + new tokens) / block_size) is within the limit, the list has at
  least the required number of blocks.
  The lower bound needs the condition on the preallocation: a manager constructed with a
  preallocation of -64 tokens returns 2 blocks for a call that requires 6 (lemma
  \<open>ex_negative_call\<close>).
\<close>

theorem allocate_slots_block_list_length:
  fixes m0 m :: KVCacheManager and r :: Request and arg :: "block list option" and n :: int
  defines "ncb \<equiv> new_computed_list arg"
  defines "held \<equiv> lookup_list (req_to_blocks (release_skipped m r)) (request_id r)"
  defines "required \<equiv> cdiv (total_computed_tokens m r ncb + n) (block_size m)"
  defines "limit \<equiv> cdiv (max_model_len m0) (block_size m0)"
  assumes cap: "max_num_blocks_per_req m0 = limit"
    and initial: "\<forall>rid. int (length (lookup_list (req_to_blocks m0) rid)) \<le> limit"
    and earlier: "allocations m0 m"
    and ok: "allocate_slots m r n arg = (Inr (Some new_blocks), m')"
    and fit: "int (length held) + int (length ncb) \<le> limit"
  shows "lookup_list (req_to_blocks m') (request_id r) = held @ ncb @ new_blocks
       \<and> (\<forall>rid. int (length (lookup_list (req_to_blocks m') rid)) \<le> limit)
       \<and> int (length (lookup_list (req_to_blocks m') (request_id r)))
            \<le> max (int (length held) + int (length ncb))
                  (required + num_preallocate_blocks m)
       \<and> (0 \<le> num_preallocate_blocks m
            \<and> (\<forall>b. 0 \<le> ref_cnt (block_pool (release_skipped m r)) b)
            \<and> required \<le> limit
          \<longrightarrow> required \<le> int (length (lookup_list (req_to_blocks m') (request_id r))))"
proof -
  have inv: "max_num_blocks_per_req m = limit"
    "\<forall>rid. int (length (lookup_list (req_to_blocks m) rid)) \<le> limit"
    using allocations_within_limit[OF earlier] initial cap by simp_all
  have fit': "int (length (lookup_list (req_to_blocks (release_skipped m r)) (request_id r)))
                + int (length (new_computed_list arg)) \<le> max_num_blocks_per_req m"
    using fit inv(1) by (simp add: held_def ncb_def)
  have all: "allocations m0 m'"
    using earlier ok fit' by (rule allocations.call)
  have every: "\<forall>rid. int (length (lookup_list (req_to_blocks m') rid)) \<le> limit"
    using allocations_within_limit[OF all] initial cap by simp
  note bl = allocate_slots_block_list[OF ok, folded ncb_def held_def]
  have list: "lookup_list (req_to_blocks m') (request_id r) = held @ ncb @ new_blocks"
    by (rule bl(1))
  have surplus: "int (length (lookup_list (req_to_blocks m') (request_id r)))
            \<le> max (int (length held) + int (length ncb))
                  (required + num_preallocate_blocks m)"
    unfolding list required_def by (rule bl(3))
  have lower: "required \<le> int (length (lookup_list (req_to_blocks m') (request_id r)))"
    if "0 \<le> num_preallocate_blocks m
        \<and> (\<forall>b. 0 \<le> ref_cnt (block_pool (release_skipped m r)) b) \<and> required \<le> limit"
    unfolding list using bl(4) that inv(1) by (simp add: required_def)
  show ?thesis
    using list every surplus lower by blast
qed

text \<open>
  After the first call for the 32 tokens of \<open>a\<close>, a call for one more token gives the
  request a third block: 3 blocks are required and the limit is 4.
\<close>

theorem allocate_slots_block_list_length_witness:
  "max_num_blocks_per_req ex_manager1
     = cdiv (max_model_len ex_manager1) (block_size ex_manager1)
   \<and> cdiv (max_model_len ex_manager1) (block_size ex_manager1) = 4
   \<and> req_to_blocks ex_manager1 = Map.empty
   \<and> allocations ex_manager1 ex_manager2
   \<and> fst (allocate_slots ex_manager2 ex_grown_request 1 None) = Inr (Some [2])
   \<and> lookup_list
        (req_to_blocks (snd (allocate_slots ex_manager2 ex_grown_request 1 None))) ''a''
       = [0, 1, 2]
   \<and> (\<forall>rid. int (length (lookup_list
          (req_to_blocks (snd (allocate_slots ex_manager2 ex_grown_request 1 None))) rid))
        \<le> 4)
   \<and> 0 \<le> num_preallocate_blocks ex_manager2
   \<and> (\<forall>b. 0 \<le> ref_cnt (block_pool (release_skipped ex_manager2 ex_grown_request)) b)
   \<and> cdiv (total_computed_tokens ex_manager2 ex_grown_request [] + 1)
        (block_size ex_manager2) = 3
   \<and> (3 :: int)
        \<le> int (length (lookup_list
             (req_to_blocks (snd (allocate_slots ex_manager2 ex_grown_request 1 None)))
             ''a''))"
proof -
  let ?first = "allocate_slots ex_manager1 (ex_request ''a'' 32) 32 (Some [])"
  let ?call = "allocate_slots ex_manager2 ex_grown_request 1 None"
  have limit: "cdiv (max_model_len ex_manager1) (block_size ex_manager1) = 4"
    by (simp add: ex_manager1_config cdiv_def)
  have cap: "max_num_blocks_per_req ex_manager1
               = cdiv (max_model_len ex_manager1) (block_size ex_manager1)"
    by (simp add: ex_manager1_config cdiv_def)
  have initial: "\<forall>rid. int (length (lookup_list (req_to_blocks ex_manager1) rid))
                   \<le> cdiv (max_model_len ex_manager1) (block_size ex_manager1)"
    unfolding limit by (simp add: ex_manager1_config lookup_list_def)
  have ok1: "?first = (Inr (Some [0, 1]), ex_manager2)"
    using ex_first_call by (simp add: prod_eq_iff ex_manager2_def)
  have fit1: "int (length (lookup_list
                 (req_to_blocks (release_skipped ex_manager1 (ex_request ''a'' 32)))
                 (request_id (ex_request ''a'' 32))))
               + int (length (new_computed_list (Some [])))
              \<le> max_num_blocks_per_req ex_manager1"
    unfolding release_skipped_fields
    by (simp add: ex_manager1_config FullAttentionManager_def
        lookup_list_def new_computed_list_def)
  have earlier: "allocations ex_manager1 ex_manager2"
    using allocations.start ok1 fit1 by (rule allocations.call)
  have ok: "?call = (Inr (Some [2]), snd ?call)"
    using ex_grown_call(1) by (simp add: prod_eq_iff)
  have fit: "int (length (lookup_list
                (req_to_blocks (release_skipped ex_manager2 ex_grown_request))
                (request_id ex_grown_request)))
              + int (length (new_computed_list None))
             \<le> cdiv (max_model_len ex_manager1) (block_size ex_manager1)"
    unfolding limit by (simp add: ex_grown_held new_computed_list_def)
  have required: "cdiv (total_computed_tokens ex_manager2 ex_grown_request [] + 1)
                    (block_size ex_manager2) = 3"
    by (simp add: ex_grown_held ex_manager2_fields cdiv_def)
  note facts = allocate_slots_block_list_length[OF cap initial earlier ok fit,
      unfolded limit ex_grown_held]
  have rid: "request_id ex_grown_request = ''a''"
    by (simp add: ex_grown_request_def ex_request_fields)
  have list: "lookup_list (req_to_blocks (snd ?call)) ''a'' = [0, 1, 2]"
    using facts[THEN conjunct1] by (simp add: rid new_computed_list_def)
  have every: "\<forall>rid. int (length (lookup_list (req_to_blocks (snd ?call)) rid)) \<le> 4"
    using facts[THEN conjunct2, THEN conjunct1] .
  have refs: "\<forall>b. 0 \<le> ref_cnt (block_pool ex_manager2) b"
    by (simp add: ex_manager2_blocks)
  have lower: "3 \<le> int (length (lookup_list (req_to_blocks (snd ?call)) ''a''))"
    using facts[THEN conjunct2, THEN conjunct2, THEN conjunct2] refs required
    by (simp add: rid new_computed_list_def ex_manager2_config)
  have pre: "0 \<le> num_preallocate_blocks ex_manager2"
    by (simp add: ex_manager2_config)
  have refs': "\<forall>b. 0 \<le> ref_cnt (block_pool (release_skipped ex_manager2
                 ex_grown_request)) b"
    unfolding ex_grown_held using refs .
  show ?thesis
    using cap limit earlier ex_grown_call(1) list every required lower pre refs'
    by (simp add: ex_manager1_config)
qed

subsection \<open>C9: the eviction counters\<close>

text \<open>
  C9. The number of blocks asked of the pool is at most the number of free blocks, so
  the test \<open>num_new_blocks > num_readily_free_blocks\<close> never holds and no call changes
  the eviction counters (lemma \<open>allocate_slots_eviction_counters\<close>). In the example both
  free blocks are cached and statistics are logged; the call takes block 1 out of the
  cache index, and \<open>prefix_cache_stats.evictions\<close> and the telemetry's
  \<open>total_evictions\<close> stay 0.
\<close>

theorem allocate_slots_eviction_not_recorded:
  "log_stats ex_small2
   \<and> evictable_queue (block_pool ex_small2) = [1, 0]
   \<and> content_hash (block_pool ex_small2) 1 = Some (ex_chain ! 1)
   \<and> cache_index (block_pool ex_small2) 32 = Some 1
   \<and> fst (allocate_slots ex_small2 (ex_request ''c'' 8) 8 None) = Inr (Some [1])
   \<and> content_hash (block_pool (snd (allocate_slots ex_small2 (ex_request ''c'' 8) 8 None))) 1
       = None
   \<and> cache_index (block_pool (snd (allocate_slots ex_small2 (ex_request ''c'' 8) 8 None))) 32
       = None
   \<and> evictions (prefix_cache_stats (snd (allocate_slots ex_small2 (ex_request ''c'' 8) 8 None)))
       = 0
   \<and> map_option total_evictions
        (cache_telemetry (snd (allocate_slots ex_small2 (ex_request ''c'' 8) 8 None)))
       = Some 0"
  using ex_small2_fields ex_small_call
    allocate_slots_eviction_counters[of ex_small2 "ex_request ''c'' 8" 8 None]
  by simp

subsection \<open>C10: the first record_hit after a reset records nothing\<close>

text \<open>
  C10. After \<open>reset\<close>, and after construction, \<open>first_block\<close> is set; a \<open>record_hit\<close> call
  on a telemetry object with \<open>first_block\<close> set changes nothing but that flag, whatever
  its arguments; and after a reset and a sequence of \<open>record_hit\<close> calls with positive
  counts, \<open>total_hits\<close> is the sum of the counts of all calls but the first.
\<close>

theorem record_hit_skips_first_call:
  "first_block (reset t) \<and>
   first_block (CacheTelemetry_init dir flag now0) \<and>
   (first_block t \<longrightarrow> record_hit t n rid = t\<lparr>first_block := False\<rparr>) \<and>
   ((\<forall>c \<in> set calls. 0 < fst (snd c)) \<longrightarrow>
      total_hits (record_hits (reset t) calls)
        = sum_list (map (\<lambda>c. fst (snd c)) (tl calls)))"
proof (intro conjI impI)
  show "first_block (reset t)" by (simp add: reset_def)
  show "first_block (CacheTelemetry_init dir flag now0)"
    by (simp add: CacheTelemetry_init_def reset_def)
  show "record_hit t n rid = t\<lparr>first_block := False\<rparr>" if "first_block t"
    using that by (rule record_hit_first)
  show "total_hits (record_hits (reset t) calls)
          = sum_list (map (\<lambda>c. fst (snd c)) (tl calls))"
    if pos: "\<forall>c \<in> set calls. 0 < fst (snd c)"
  proof (cases calls)
    case Nil
    then show ?thesis by (simp add: reset_def)
  next
    case (Cons c rest)
    obtain now n rid where c: "c = (now, n, rid)" by (cases c)
    let ?t1 = "(reset t)\<lparr>clock := now, first_block := False\<rparr>"
    have step: "record_hit ((reset t)\<lparr>clock := now\<rparr>) n rid = ?t1"
      by (simp add: record_hit_def reset_def)
    have "total_hits (record_hits ?t1 rest)
            = total_hits ?t1 + sum_list (map (\<lambda>c. fst (snd c)) rest)"
      using record_hits_later[of ?t1 rest] pos Cons by simp
    then show ?thesis using Cons c step by (simp add: reset_def)
  qed
qed

text \<open>Three calls after a reset with the counts 5, 3 and 4 leave \<open>total_hits\<close> at 7.\<close>

theorem record_hit_skips_first_call_witness:
  "first_block (CacheTelemetry_init ''out'' True 0)
   \<and> record_hit (CacheTelemetry_init ''out'' True 0) 5 (Some ''a'')
       = (CacheTelemetry_init ''out'' True 0)\<lparr>first_block := False\<rparr>
   \<and> (0::int) < 5 \<and> (0::int) < 3 \<and> (0::int) < 4
   \<and> total_hits (record_hits (reset (CacheTelemetry_init ''out'' True 0))
        [(1, 5, Some ''a''), (2, 3, Some ''b''), (3, 4, None)]) = 7"
  using record_hit_skips_first_call[where t = "CacheTelemetry_init ''out'' True 0"
      and dir = "''out''" and flag = True and ?now0.0 = 0
      and n = 5 and rid = "Some ''a''"
      and calls = "[(1, 5, Some ''a''), (2, 3, Some ''b''), (3, 4, None)]"]
  by simp

end
